theory Spec2Isabelle
  imports Main "HOL-Library.AList"
begin

section \<open>Python values\<close>

text \<open>
  The agents file holds JSON, and the service works on what \<^verbatim>\<open>json.load\<close> returns:
  untyped Python values. A dict is an association list in insertion order; a float is
  named by its \<^verbatim>\<open>repr\<close>, which identifies it. A string is held as its UTF-8 bytes; a
  lone surrogate, which a Python string can hold and \<^verbatim>\<open>json.load\<close> returns from an
  escape such as \<^verbatim>\<open>\ud83d\<close>, is held as the three bytes \<^verbatim>\<open>ED A0..BF 80..BF\<close> that the
  \<^verbatim>\<open>surrogatepass\<close> handler gives it.
\<close>

datatype pyval =
    PNone
  | PBool bool
  | PInt int
  | PFloat string
  | PStr string
  | PList "pyval list"
  | PDict "(string \<times> pyval) list"

datatype error =
    AttributeError
  | TypeError
  | UnicodeDecodeError
  | UnicodeEncodeError
  | RecursionError
  | Unauthorized
  | CsrfMismatch

text \<open>Truth value of a Python object, as \<^verbatim>\<open>or\<close>, \<^verbatim>\<open>not\<close> and \<^verbatim>\<open>if\<close> read it.\<close>

fun truthy :: "pyval \<Rightarrow> bool" where
  "truthy PNone = False"
| "truthy (PBool b) = b"
| "truthy (PInt n) = (n \<noteq> 0)"
| "truthy (PFloat r) = (r \<noteq> ''0.0'' \<and> r \<noteq> ''-0.0'')"
| "truthy (PStr s) = (s \<noteq> [])"
| "truthy (PList xs) = (xs \<noteq> [])"
| "truthy (PDict kvs) = (kvs \<noteq> [])"

text \<open>\<^verbatim>\<open>d.get(k, default)\<close> on a dict.\<close>

definition dict_get :: "(string \<times> pyval) list \<Rightarrow> string \<Rightarrow> pyval \<Rightarrow> pyval" where
  "dict_get kvs k d = (case map_of kvs k of None \<Rightarrow> d | Some v \<Rightarrow> v)"

text \<open>\<^verbatim>\<open>x.get(k, default)\<close> on any value: only a dict has the method.\<close>

fun py_get :: "pyval \<Rightarrow> string \<Rightarrow> pyval \<Rightarrow> error + pyval" where
  "py_get (PDict kvs) k d = Inr (dict_get kvs k d)"
| "py_get _ k d = Inl AttributeError"

text \<open>
  The characters of a string: each is a first byte with the continuation bytes
  (\<^verbatim>\<open>80..BF\<close>) that follow it.
\<close>

definition continuation :: "char \<Rightarrow> bool" where
  "continuation c = ((128::nat) \<le> of_char c \<and> of_char c \<le> (191::nat))"

function chars :: "string \<Rightarrow> string list" where
  "chars [] = []"
| "chars (c # cs) = (c # takeWhile continuation cs) # chars (dropWhile continuation cs)"
  by pat_completeness auto
termination
  by (relation "measure length") (simp_all add: length_dropWhile_le less_Suc_eq_le)

text \<open>Iterating a value: a list gives its elements, a dict its keys, a string its characters.\<close>

fun py_iter :: "pyval \<Rightarrow> error + pyval list" where
  "py_iter (PList xs) = Inr xs"
| "py_iter (PDict kvs) = Inr (map (\<lambda>kv. PStr (fst kv)) kvs)"
| "py_iter (PStr s) = Inr (map PStr (chars s))"
| "py_iter _ = Inl TypeError"

fun py_len :: "pyval \<Rightarrow> error + nat" where
  "py_len (PList xs) = Inr (length xs)"
| "py_len (PDict kvs) = Inr (length kvs)"
| "py_len (PStr s) = Inr (length (chars s))"
| "py_len _ = Inl TypeError"

text \<open>
  Whether a string holds a lone surrogate, and whether a value can be written to a
  \<^verbatim>\<open>utf-8\<close> file by \<^verbatim>\<open>json.dump\<close> with \<^verbatim>\<open>ensure_ascii=False\<close>: the strings and
  the keys of dicts go out as they are, and the encoder of the file rejects a surrogate.
\<close>

fun has_surrogate :: "string \<Rightarrow> bool" where
  "has_surrogate (a # b # cs) =
     ((of_char a = (237::nat) \<and> (160::nat) \<le> of_char b \<and> of_char b \<le> (191::nat))
      \<or> has_surrogate (b # cs))"
| "has_surrogate cs = False"

fun writable :: "pyval \<Rightarrow> bool" where
  "writable (PStr s) = (\<not> has_surrogate s)"
| "writable (PList xs) = list_all writable xs"
| "writable (PDict kvs) = list_all (\<lambda>kv. \<not> has_surrogate (fst kv) \<and> writable (snd kv)) kvs"
| "writable v = True"

section \<open>The world outside the process\<close>

text \<open>
  What \<^verbatim>\<open>open\<close> and \<^verbatim>\<open>json.load\<close> do with what is at the path of the agents file:
  there is no file (FileNotFoundError); its bytes are not UTF-8 (UnicodeDecodeError); its
  text is rejected by the parser (JSONDecodeError); its text is nested past the
  recursion limit of the interpreter (RecursionError); or it is a JSON document, held as
  the value that \<^verbatim>\<open>json.load\<close> returns.
\<close>

datatype file_content =
    Missing
  | InvalidEncoding
  | InvalidSyntax
  | TooDeep
  | Document pyval

text \<open>Calls made on the real-time client, in order.\<close>

datatype lk_call =
    CreateRoom string nat nat pyval
  | GenerateToken string string string nat

text \<open>
  \<open>saves\<close> counts the writes of the agents file; \<open>uuids\<close> are the strings that successive
  calls of \<^verbatim>\<open>str(uuid.uuid4())\<close> give.
\<close>

record world =
  agents_file :: file_content
  saves :: nat
  uuids :: "nat \<Rightarrow> string"
  lk_calls :: "lk_call list"

definition uuid4 :: "world \<Rightarrow> string \<times> world" where
  "uuid4 w = (uuids w 0, w\<lparr>uuids := (\<lambda>n. uuids w (Suc n))\<rparr>)"

section \<open>AgentConfig\<close>

record AgentConfig =
  id' :: pyval
  name :: pyval
  enabled :: pyval
  model_provider :: pyval
  model :: pyval
  voice :: pyval
  first_message :: pyval
  noise_cancellation :: pyval
  n8n_mcp_url :: pyval
  metadata :: pyval

definition param_names :: "string list" where
  "param_names = [''id'', ''name'', ''enabled'', ''model_provider'', ''model'', ''voice'',
     ''first_message'', ''noise_cancellation'', ''n8n_mcp_url'', ''metadata'']"

text \<open>
  \<^verbatim>\<open>AgentConfig.__init__\<close> called with the keyword arguments \<open>kw\<close>: a missing argument
  takes its default, and \<^verbatim>\<open>id or str(uuid.uuid4())\<close> draws a uuid only when the id is falsy.
\<close>

definition AgentConfig_init :: "(string \<times> pyval) list \<Rightarrow> world \<Rightarrow> AgentConfig \<times> world" where
  "AgentConfig_init kw w =
     (let given = dict_get kw ''id'' PNone;
          iw = (if truthy given then (given, w)
                else (PStr (fst (uuid4 w)), snd (uuid4 w)))
      in (\<lparr> id' = fst iw,
             name = dict_get kw ''name'' (PStr ''''),
             enabled = dict_get kw ''enabled'' (PBool True),
             model_provider = dict_get kw ''model_provider'' (PStr ''google''),
             model = dict_get kw ''model'' (PStr ''gemini-2.0-flash-exp''),
             voice = dict_get kw ''voice'' (PStr ''Puck''),
             first_message = dict_get kw ''first_message'' (PStr ''Hello! How can I help you today?''),
             noise_cancellation = dict_get kw ''noise_cancellation'' (PBool True),
             n8n_mcp_url = dict_get kw ''n8n_mcp_url'' (PStr ''''),
             metadata = dict_get kw ''metadata'' (PStr '''') \<rparr>, snd iw))"

definition to_dict :: "AgentConfig \<Rightarrow> (string \<times> pyval) list" where
  "to_dict c =
     [(''id'', id' c), (''name'', name c), (''enabled'', enabled c),
      (''model_provider'', model_provider c), (''model'', model c), (''voice'', voice c),
      (''first_message'', first_message c), (''noise_cancellation'', noise_cancellation c),
      (''n8n_mcp_url'', n8n_mcp_url c), (''metadata'', metadata c)]"

text \<open>
  \<^verbatim>\<open>cls(**data)\<close>: a value that is no mapping, or a key that is no parameter of
  \<^verbatim>\<open>__init__\<close>, raises TypeError.
\<close>

definition from_dict :: "pyval \<Rightarrow> world \<Rightarrow> (error + AgentConfig) \<times> world" where
  "from_dict data w =
     (case data of
        PDict kvs \<Rightarrow>
          if list_all (\<lambda>k. k \<in> set param_names) (map fst kvs)
          then (Inr (fst (AgentConfig_init kvs w)), snd (AgentConfig_init kvs w))
          else (Inl TypeError, w)
      | _ \<Rightarrow> (Inl TypeError, w))"

section \<open>AgentService\<close>

text \<open>
  \<^verbatim>\<open>_load_agents\<close> catches FileNotFoundError and JSONDecodeError only; the other
  exceptions of \<^verbatim>\<open>json.load\<close> pass through, and a document that is no dict has no
  \<^verbatim>\<open>get\<close>.
\<close>

definition load_agents :: "world \<Rightarrow> error + pyval" where
  "load_agents w =
     (case agents_file w of
        Missing \<Rightarrow> Inr (PList [])
      | InvalidSyntax \<Rightarrow> Inr (PList [])
      | InvalidEncoding \<Rightarrow> Inl UnicodeDecodeError
      | TooDeep \<Rightarrow> Inl RecursionError
      | Document data \<Rightarrow> py_get data ''agents'' (PList []))"

text \<open>
  \<^verbatim>\<open>_save_agents\<close> opens the file for writing, which empties it, and has \<^verbatim>\<open>json.dump\<close>
  write the document \<^verbatim>\<open>{"agents": agents}\<close> piece by piece. A document that can be
  written is read back by \<^verbatim>\<open>json.load\<close> as the value it was: that is the contract of
  the \<^verbatim>\<open>json\<close> module, which is not part of the sources, and it is how the written file
  is held here. At the first string with a surrogate the write raises UnicodeEncodeError;
  what is left in the file is the text before that string, the start of a document, which
  the parser rejects.
\<close>

definition save_agents :: "pyval \<Rightarrow> world \<Rightarrow> (error + unit) \<times> world" where
  "save_agents agents w =
     (let document = PDict [(''agents'', agents)]
      in if writable document
         then (Inr (), w\<lparr>agents_file := Document document, saves := Suc (saves w)\<rparr>)
         else (Inl UnicodeEncodeError, w\<lparr>agents_file := InvalidSyntax, saves := Suc (saves w)\<rparr>))"

text \<open>The comprehension \<^verbatim>\<open>[AgentConfig.from_dict(a) for a in agents_data]\<close>.\<close>

fun from_dict_all :: "pyval list \<Rightarrow> world \<Rightarrow> (error + AgentConfig list) \<times> world" where
  "from_dict_all [] w = (Inr [], w)"
| "from_dict_all (a # rest) w =
     (case from_dict a w of
        (Inl e, w1) \<Rightarrow> (Inl e, w1)
      | (Inr c, w1) \<Rightarrow>
          (case from_dict_all rest w1 of
             (Inl e, w2) \<Rightarrow> (Inl e, w2)
           | (Inr cs, w2) \<Rightarrow> (Inr (c # cs), w2)))"

definition list_agents :: "world \<Rightarrow> (error + AgentConfig list) \<times> world" where
  "list_agents w =
     (case load_agents w of
        Inl e \<Rightarrow> (Inl e, w)
      | Inr agents_data \<Rightarrow>
          (case py_iter agents_data of
             Inl e \<Rightarrow> (Inl e, w)
           | Inr xs \<Rightarrow> from_dict_all xs w))"

text \<open>
  \<^verbatim>\<open>get_agent\<close>, \<^verbatim>\<open>update_agent\<close> and \<^verbatim>\<open>toggle_agent\<close> run the same scan,
  \<^verbatim>\<open>for i, agent_data in enumerate(agents): if agent_data.get("id") == agent_id\<close>:
  \<open>find_by_id\<close> is the index at which its body is entered, None when the loop runs out,
  and AttributeError when an element before that is no dict.
\<close>

fun find_by_id :: "pyval list \<Rightarrow> string \<Rightarrow> error + nat option" where
  "find_by_id [] aid = Inr None"
| "find_by_id (a # rest) aid =
     (case py_get a ''id'' PNone of
        Inl e \<Rightarrow> Inl e
      | Inr v \<Rightarrow>
          if v = PStr aid then Inr (Some 0)
          else (case find_by_id rest aid of
                  Inl e \<Rightarrow> Inl e
                | Inr None \<Rightarrow> Inr None
                | Inr (Some i) \<Rightarrow> Inr (Some (Suc i))))"

text \<open>A constructor's result wrapped as the Optional that the methods return.\<close>

definition returning :: "(error + AgentConfig) \<times> world \<Rightarrow> (error + AgentConfig option) \<times> world" where
  "returning r = (case r of (Inl e, w) \<Rightarrow> (Inl e, w) | (Inr c, w) \<Rightarrow> (Inr (Some c), w))"

definition get_agent :: "string \<Rightarrow> world \<Rightarrow> (error + AgentConfig option) \<times> world" where
  "get_agent agent_id w =
     (case load_agents w of
        Inl e \<Rightarrow> (Inl e, w)
      | Inr agents \<Rightarrow>
          (case py_iter agents of
             Inl e \<Rightarrow> (Inl e, w)
           | Inr xs \<Rightarrow>
               (case find_by_id xs agent_id of
                  Inl e \<Rightarrow> (Inl e, w)
                | Inr None \<Rightarrow> (Inr None, w)
                | Inr (Some i) \<Rightarrow> returning (from_dict (xs ! i) w))))"

definition create_agent :: "AgentConfig \<Rightarrow> world \<Rightarrow> (error + AgentConfig) \<times> world" where
  "create_agent config w =
     (case load_agents w of
        Inl e \<Rightarrow> (Inl e, w)
      | Inr agents \<Rightarrow>
          (case agents of
             PList xs \<Rightarrow>
               (case save_agents (PList (xs @ [PDict (to_dict config)])) w of
                  (Inl e, w1) \<Rightarrow> (Inl e, w1)
                | (Inr u, w1) \<Rightarrow> (Inr config, w1))
           | _ \<Rightarrow> (Inl AttributeError, w)))"

text \<open>
  The inner loop of \<^verbatim>\<open>update_agent\<close>:
  \<^verbatim>\<open>for key, value in kwargs.items(): if value is not None: agent_data[key] = value\<close>.
\<close>

definition apply_kwargs :: "(string \<times> pyval) list \<Rightarrow> (string \<times> pyval) list \<Rightarrow> (string \<times> pyval) list" where
  "apply_kwargs kwargs agent_data =
     foldl (\<lambda>d kv. if snd kv \<noteq> PNone then AList.update (fst kv) (snd kv) d else d) agent_data kwargs"

text \<open>
  A keyword named as one of the positional parameters of
  \<^verbatim>\<open>update_agent(self, agent_id, **kwargs)\<close> never reaches \<^verbatim>\<open>kwargs\<close>: the call raises
  TypeError (multiple values for the argument) before the body runs.
\<close>

definition positional_names :: "string list" where
  "positional_names = [''self'', ''agent_id'']"

text \<open>
  The body of the scan is entered at a dict, so \<open>agents\<close> is the list \<open>xs\<close> there (the keys
  of a dict and the characters of a string are strings), and \<^verbatim>\<open>agents[i] = agent_data\<close>
  writes position \<open>i\<close> of it.
\<close>

definition update_agent :: "string \<Rightarrow> (string \<times> pyval) list \<Rightarrow> world \<Rightarrow> (error + AgentConfig option) \<times> world" where
  "update_agent agent_id kwargs w =
     (if list_ex (\<lambda>kv. fst kv \<in> set positional_names) kwargs then (Inl TypeError, w)
      else
        (case load_agents w of
           Inl e \<Rightarrow> (Inl e, w)
         | Inr agents \<Rightarrow>
             (case py_iter agents of
                Inl e \<Rightarrow> (Inl e, w)
              | Inr xs \<Rightarrow>
                  (case find_by_id xs agent_id of
                     Inl e \<Rightarrow> (Inl e, w)
                   | Inr None \<Rightarrow> (Inr None, w)
                   | Inr (Some i) \<Rightarrow>
                       (case xs ! i of
                          PDict kvs \<Rightarrow>
                            (let agent_data = PDict (apply_kwargs kwargs kvs)
                             in (case save_agents (PList (xs[i := agent_data])) w of
                                   (Inl e, w1) \<Rightarrow> (Inl e, w1)
                                 | (Inr u, w1) \<Rightarrow> returning (from_dict agent_data w1)))
                        | _ \<Rightarrow> (Inl AttributeError, w))))))"

text \<open>The comprehension \<^verbatim>\<open>[a for a in agents if a.get("id") != agent_id]\<close>.\<close>

fun keep_others :: "pyval list \<Rightarrow> string \<Rightarrow> error + pyval list" where
  "keep_others [] aid = Inr []"
| "keep_others (a # rest) aid =
     (case py_get a ''id'' PNone of
        Inl e \<Rightarrow> Inl e
      | Inr v \<Rightarrow>
          (case keep_others rest aid of
             Inl e \<Rightarrow> Inl e
           | Inr ys \<Rightarrow> Inr (if v \<noteq> PStr aid then a # ys else ys)))"

definition delete_agent :: "string \<Rightarrow> world \<Rightarrow> (error + bool) \<times> world" where
  "delete_agent agent_id w =
     (case load_agents w of
        Inl e \<Rightarrow> (Inl e, w)
      | Inr agents \<Rightarrow>
          (case py_len agents of
             Inl e \<Rightarrow> (Inl e, w)
           | Inr original_len \<Rightarrow>
               (case py_iter agents of
                  Inl e \<Rightarrow> (Inl e, w)
                | Inr xs \<Rightarrow>
                    (case keep_others xs agent_id of
                       Inl e \<Rightarrow> (Inl e, w)
                     | Inr ys \<Rightarrow>
                         if length ys < original_len
                         then (case save_agents (PList ys) w of
                                 (Inl e, w1) \<Rightarrow> (Inl e, w1)
                               | (Inr u, w1) \<Rightarrow> (Inr True, w1))
                         else (Inr False, w)))))"

definition toggle_agent :: "string \<Rightarrow> world \<Rightarrow> (error + AgentConfig option) \<times> world" where
  "toggle_agent agent_id w =
     (case load_agents w of
        Inl e \<Rightarrow> (Inl e, w)
      | Inr agents \<Rightarrow>
          (case py_iter agents of
             Inl e \<Rightarrow> (Inl e, w)
           | Inr xs \<Rightarrow>
               (case find_by_id xs agent_id of
                  Inl e \<Rightarrow> (Inl e, w)
                | Inr None \<Rightarrow> (Inr None, w)
                | Inr (Some i) \<Rightarrow>
                    (case xs ! i of
                       PDict kvs \<Rightarrow>
                         (let agent_data = PDict (AList.update ''enabled''
                                (PBool (\<not> truthy (dict_get kvs ''enabled'' (PBool True)))) kvs)
                          in (case save_agents (PList (xs[i := agent_data])) w of
                                (Inl e, w1) \<Rightarrow> (Inl e, w1)
                              | (Inr u, w1) \<Rightarrow> returning (from_dict agent_data w1)))
                     | _ \<Rightarrow> (Inl AttributeError, w)))))"

section \<open>The test action of the controller\<close>

text \<open>
  \<^verbatim>\<open>urllib.parse.quote\<close> with its default safe set: letters, digits and \<^verbatim>\<open>_.-~/\<close>
  stay, every other byte becomes \<^verbatim>\<open>%XX\<close> in upper-case hexadecimal.
\<close>

definition hex_digit :: "nat \<Rightarrow> char" where
  "hex_digit n = ''0123456789ABCDEF'' ! (n mod 16)"

definition always_safe :: "char list" where
  "always_safe = ''ABCDEFGHIJKLMNOPQRSTUVWXYZabcdefghijklmnopqrstuvwxyz0123456789_.-~/''"

definition quote_char :: "char \<Rightarrow> string" where
  "quote_char c =
     (if c \<in> set always_safe then [c]
      else [CHR ''%'', hex_digit (of_char c div 16), hex_digit (of_char c mod 16)])"

definition quote :: "string \<Rightarrow> string" where
  "quote s = concat (map quote_char s)"

datatype response =
    RedirectResponse string nat
  | TemplateResponse string AgentConfig string string string string

text \<open>The redirect that every failing branch builds: the quoted message in the flash query.\<close>

definition flash_error :: "string \<Rightarrow> response" where
  "flash_error message =
     RedirectResponse (''/agents?flash_message='' @ quote message @ ''&flash_type=error'') 303"

text \<open>
  Modelled from the spec: \<^verbatim>\<open>requires_admin\<close>, \<^verbatim>\<open>verify_csrf_token\<close>, \<^verbatim>\<open>get_csrf_token\<close>
  (app.security) and \<^verbatim>\<open>LiveKitClient\<close> (app.services.livekit) are not among the sources.
  A request carries their outcomes: whether the caller is the admin, whether the submitted
  token matches the session's, the message of the exception that \<^verbatim>\<open>create_room\<close> raises
  (if it does), the token or the exception message of \<^verbatim>\<open>generate_token\<close>, the value
  of \<^verbatim>\<open>LIVEKIT_URL\<close> and the session's token.
\<close>

record env =
  is_admin :: bool
  csrf_ok :: bool
  create_room_fails :: "string option"
  generate_token_result :: "string + string"
  livekit_url :: string
  csrf_token :: string

text \<open>\<^verbatim>\<open>uuid.uuid4().hex\<close>: the digits of the uuid's string, without the dashes.\<close>

definition uuid_hex :: "string \<Rightarrow> string" where
  "uuid_hex u = filter (\<lambda>c. c \<noteq> CHR ''-'') u"

text \<open>
  \<^verbatim>\<open>test_agent\<close>. A call of the client is logged before its outcome is known; the
  room's metadata is the f-string around \<^verbatim>\<open>agent.name\<close>, logged as that value.
\<close>

definition test_agent :: "env \<Rightarrow> string \<Rightarrow> world \<Rightarrow> (error + response) \<times> world" where
  "test_agent rq agent_id w =
     (if \<not> is_admin rq then (Inl Unauthorized, w)
      else if \<not> csrf_ok rq then (Inl CsrfMismatch, w)
      else
        (case get_agent agent_id w of
           (Inl e, w1) \<Rightarrow> (Inl e, w1)
         | (Inr None, w1) \<Rightarrow> (Inr (flash_error ''Agent not found''), w1)
         | (Inr (Some agent), w1) \<Rightarrow>
             if \<not> truthy (enabled agent)
             then (Inr (flash_error ''Agent is disabled. Enable it first to test.''), w1)
             else
               (let test_room_name = ''agent-test-'' @ take 8 (uuid_hex (fst (uuid4 w1)));
                    w2 = snd (uuid4 w1);
                    w3 = w2\<lparr>lk_calls := lk_calls w2 @ [CreateRoom test_room_name 300 2 (name agent)]\<rparr>
                in (case create_room_fails rq of
                      Some msg \<Rightarrow> (Inr (flash_error (''Error creating test room: '' @ msg)), w3)
                    | None \<Rightarrow>
                        (let w4 = w3\<lparr>lk_calls := lk_calls w3 @
                                     [GenerateToken test_room_name ''test-user'' ''Test User'' 300]\<rparr>
                         in (case generate_token_result rq of
                               Inl msg \<Rightarrow> (Inr (flash_error (''Error creating test room: '' @ msg)), w4)
                             | Inr token \<Rightarrow>
                                 (Inr (TemplateResponse ''agents/test.html.j2'' agent test_room_name
                                         token (livekit_url rq) (csrf_token rq)), w4)))))))"

section \<open>Vocabulary of the properties\<close>

definition is_dict :: "pyval \<Rightarrow> bool" where
  "is_dict a = (case a of PDict kvs \<Rightarrow> True | _ \<Rightarrow> False)"

text \<open>The test of the scans, \<^verbatim>\<open>a.get("id") == agent_id\<close>, on a record of the store.\<close>

definition has_id :: "string \<Rightarrow> pyval \<Rightarrow> bool" where
  "has_id aid a = (py_get a ''id'' PNone = Inr (PStr aid))"

text \<open>
  Where the scan of \<^verbatim>\<open>get_agent\<close>, \<^verbatim>\<open>update_agent\<close> and \<^verbatim>\<open>toggle_agent\<close> stops:
  \<open>i\<close> is the first record of id \<open>aid\<close>, and the records before it are dicts.
\<close>

definition first_match :: "pyval list \<Rightarrow> string \<Rightarrow> nat \<Rightarrow> bool" where
  "first_match xs aid i =
     (i < length xs \<and> has_id aid (xs ! i) \<and> (\<forall>j<i. is_dict (xs ! j) \<and> \<not> has_id aid (xs ! j)))"

text \<open>A stored record that holds no field other than those of an AgentConfig.\<close>

definition known_keys :: "(string \<times> pyval) list \<Rightarrow> bool" where
  "known_keys kvs = list_all (\<lambda>k. k \<in> set param_names) (map fst kvs)"

text \<open>
  The AgentConfig that \<^verbatim>\<open>from_dict\<close> builds from a stored dict, and the attribute of
  an AgentConfig under a field's name.
\<close>

definition as_config :: "(string \<times> pyval) list \<Rightarrow> world \<Rightarrow> AgentConfig" where
  "as_config kvs w = fst (AgentConfig_init kvs w)"

definition getattr :: "AgentConfig \<Rightarrow> string \<Rightarrow> pyval" where
  "getattr c k = dict_get (to_dict c) k PNone"

text \<open>
  The ids that the store holds, in order, and runs of the four mutating operations. An
  operation is admissible when it brings no id that the store already holds: a created
  record has a new id, and an update supplies no id.
\<close>

definition id_of :: "pyval \<Rightarrow> pyval" where
  "id_of a = (case a of PDict kvs \<Rightarrow> dict_get kvs ''id'' PNone | _ \<Rightarrow> PNone)"

definition stored_ids :: "world \<Rightarrow> pyval list" where
  "stored_ids w = (case load_agents w of Inr (PList xs) \<Rightarrow> map id_of xs | _ \<Rightarrow> [])"

datatype op =
    Create AgentConfig
  | Update string "(string \<times> pyval) list"
  | Delete string
  | Toggle string

fun step :: "op \<Rightarrow> world \<Rightarrow> world" where
  "step (Create config) w = snd (create_agent config w)"
| "step (Update agent_id kwargs) w = snd (update_agent agent_id kwargs w)"
| "step (Delete agent_id) w = snd (delete_agent agent_id w)"
| "step (Toggle agent_id) w = snd (toggle_agent agent_id w)"

fun run :: "op list \<Rightarrow> world \<Rightarrow> world" where
  "run [] w = w"
| "run (x # ops) w = run ops (step x w)"

fun admissible :: "op \<Rightarrow> world \<Rightarrow> bool" where
  "admissible (Create config) w = (id' config \<notin> set (stored_ids w))"
| "admissible (Update agent_id kwargs) w = list_all (\<lambda>kv. fst kv = ''id'' \<longrightarrow> snd kv = PNone) kwargs"
| "admissible (Delete agent_id) w = True"
| "admissible (Toggle agent_id) w = True"

fun admissible_run :: "op list \<Rightarrow> world \<Rightarrow> bool" where
  "admissible_run [] w = True"
| "admissible_run (x # ops) w = (admissible x w \<and> admissible_run ops (step x w))"

text \<open>
  The world after \<^verbatim>\<open>_save_agents\<close> has written a value, and a stored value that is a
  dict of known fields, with the dict it is.
\<close>

definition written :: "pyval \<Rightarrow> world \<Rightarrow> world" where
  "written agents w =
     w\<lparr>agents_file := Document (PDict [(''agents'', agents)]), saves := Suc (saves w)\<rparr>"

text \<open>Keyword arguments with which a call of \<^verbatim>\<open>update_agent\<close> binds its parameters.\<close>

definition binds :: "(string \<times> pyval) list \<Rightarrow> bool" where
  "binds kwargs = (\<not> list_ex (\<lambda>kv. fst kv \<in> set positional_names) kwargs)"

text \<open>The world after a write that raised: the file holds the start of a document.\<close>

definition cut_short :: "world \<Rightarrow> world" where
  "cut_short w = w\<lparr>agents_file := InvalidSyntax, saves := Suc (saves w)\<rparr>"



text \<open>Concrete stores on which the properties are run.\<close>

definition sample_uuids :: "nat \<Rightarrow> string" where
  "sample_uuids n = (''0123456789abcdef'' ! (n mod 16)) # ''f2b8c1e-5d4a-4e6f-9a7b-0c1d2e3f4a5b''"

definition world_of :: "file_content \<Rightarrow> world" where
  "world_of f = \<lparr>agents_file = f, saves = 0, uuids = sample_uuids, lk_calls = []\<rparr>"

definition store_of :: "pyval list \<Rightarrow> world" where
  "store_of xs = world_of (Document (PDict [(''agents'', PList xs)]))"

definition rec_a :: pyval where
  "rec_a = PDict [(''id'', PStr ''a''), (''name'', PStr ''Alice''), (''enabled'', PBool True)]"

definition rec_b :: pyval where
  "rec_b = PDict [(''id'', PStr ''b''), (''name'', PStr ''Bob''), (''enabled'', PBool False)]"

definition rec_a2 :: pyval where
  "rec_a2 = PDict [(''id'', PStr ''a''), (''name'', PStr ''Alice again'')]"

definition cfg_c :: AgentConfig where
  "cfg_c = \<lparr> id' = PStr ''c'', name = PStr ''Carol'', enabled = PBool True,
     model_provider = PStr ''openai'', model = PStr ''gpt-4o'', voice = PStr ''alloy'',
     first_message = PStr ''Hi'', noise_cancellation = PBool False,
     n8n_mcp_url = PStr [], metadata = PStr [] \<rparr>"

definition kw_rename :: "(string \<times> pyval) list" where
  "kw_rename = [(''name'', PStr ''Robert''), (''voice'', PNone)]"

definition kvs_b :: "(string \<times> pyval) list" where
  "kvs_b = [(''id'', PStr ''b''), (''name'', PStr ''Bob''), (''enabled'', PBool False)]"

definition cfg_a :: AgentConfig where
  "cfg_a = \<lparr> id' = PStr ''a'', name = PStr ''Impostor'', enabled = PBool True,
     model_provider = PStr ''google'', model = PStr ''gemini-1.5-pro'', voice = PStr ''Kore'',
     first_message = PStr ''Hello'', noise_cancellation = PBool True,
     n8n_mcp_url = PStr [], metadata = PStr [] \<rparr>"

definition kvs_blank :: "(string \<times> pyval) list" where
  "kvs_blank = [(''id'', PStr []), (''name'', PStr ''Dan'')]"

definition rq_ok :: env where
  "rq_ok = \<lparr> is_admin = True, csrf_ok = True, create_room_fails = None,
     generate_token_result = Inr ''token'', livekit_url = ''wss://example'', csrf_token = ''t'' \<rparr>"

definition rec_blank :: pyval where
  "rec_blank = PDict [(''id'', PStr []), (''name'', PStr ''Dan'')]"

text \<open>A name that ends in the lone surrogate U+D83D, and a record and an update with it.\<close>

definition bad_name :: string where
  "bad_name = ''bad '' @ [CHR 0xED, CHR 0xA0, CHR 0xBD]"

definition rec_s :: pyval where
  "rec_s = PDict [(''id'', PStr ''s''), (''name'', PStr bad_name)]"

definition kw_bad :: "(string \<times> pyval) list" where
  "kw_bad = [(''name'', PStr bad_name)]"

section \<open>Loading and saving\<close>

lemma save_agents_writable:
  "writable agents \<Longrightarrow> save_agents agents w = (Inr (), written agents w)"
  by (simp add: save_agents_def written_def)

lemma save_agents_unwritable:
  "\<not> writable agents \<Longrightarrow> save_agents agents w = (Inl UnicodeEncodeError, cut_short w)"
  by (simp add: save_agents_def cut_short_def)

lemma load_written: "load_agents (written a w) = Inr a"
  by (simp add: load_agents_def written_def dict_get_def)

lemma load_cut_short: "load_agents (cut_short w) = Inr (PList [])"
  by (simp add: load_agents_def cut_short_def)

lemma load_store_of: "load_agents (store_of xs) = Inr (PList xs)"
  by (simp add: load_agents_def store_of_def world_of_def dict_get_def)

lemma writable_filter: "writable (PList xs) \<Longrightarrow> writable (PList (filter P xs))"
  by (simp add: list_all_iff)

lemma writable_list_update:
  "writable (PList xs) \<Longrightarrow> writable b \<Longrightarrow> writable (PList (xs[i := b]))"
  by (auto simp: list_all_iff dest: set_update_subset_insert[THEN subsetD])

lemma writable_nth: "writable (PList xs) \<Longrightarrow> i < length xs \<Longrightarrow> writable (xs ! i)"
  by (simp add: list_all_length)

section \<open>The scans\<close>

lemma keep_others_filter:
  "list_all is_dict xs \<Longrightarrow> keep_others xs aid = Inr (filter (\<lambda>a. \<not> has_id aid a) xs)"
proof (induction xs)
  case Nil
  then show ?case by simp
next
  case (Cons a xs)
  then obtain kvs where "a = PDict kvs" by (cases a) (simp_all add: is_dict_def)
  with Cons show ?case by (simp add: has_id_def)
qed

lemma find_by_id_None:
  "list_all is_dict xs \<Longrightarrow> \<forall>a\<in>set xs. \<not> has_id aid a \<Longrightarrow> find_by_id xs aid = Inr None"
proof (induction xs)
  case Nil
  then show ?case by simp
next
  case (Cons a xs)
  then obtain kvs where "a = PDict kvs" by (cases a) (simp_all add: is_dict_def)
  with Cons show ?case by (simp add: has_id_def)
qed

lemma has_id_dict: "has_id aid a \<Longrightarrow> \<exists>kvs. a = PDict kvs \<and> dict_get kvs ''id'' PNone = PStr aid"
  by (cases a) (simp_all add: has_id_def)

lemma has_id_is_dict: "has_id aid a \<Longrightarrow> is_dict a"
  by (cases a) (simp_all add: has_id_def is_dict_def)

lemma first_match_Cons:
  "first_match (a # xs) aid i \<longleftrightarrow>
     (i = 0 \<and> has_id aid a) \<or> (\<exists>j. i = Suc j \<and> is_dict a \<and> \<not> has_id aid a \<and> first_match xs aid j)"
proof (cases i)
  case 0
  then show ?thesis by (simp add: first_match_def)
next
  case (Suc j)
  have "(\<forall>k<Suc j. is_dict ((a # xs) ! k) \<and> \<not> has_id aid ((a # xs) ! k)) \<longleftrightarrow>
        (is_dict a \<and> \<not> has_id aid a \<and> (\<forall>k<j. is_dict (xs ! k) \<and> \<not> has_id aid (xs ! k)))"
    by (auto simp: less_Suc_eq_0_disj)
  with Suc show ?thesis by (auto simp: first_match_def)
qed

lemma find_by_id_first_match:
  "find_by_id xs aid = Inr (Some i) \<longleftrightarrow> first_match xs aid i"
proof (induction xs arbitrary: i)
  case Nil
  then show ?case by (simp add: first_match_def)
next
  case (Cons a xs)
  show ?case
  proof (cases a)
    case (PDict kvs)
    show ?thesis
    proof (cases "dict_get kvs ''id'' PNone = PStr aid")
      case True
      then show ?thesis by (auto simp: PDict first_match_Cons has_id_def)
    next
      case False
      then show ?thesis
        by (auto simp: PDict first_match_Cons has_id_def is_dict_def Cons.IH[symmetric]
            split: sum.splits option.splits)
    qed
  qed (auto simp: first_match_Cons has_id_def is_dict_def)
qed


lemma first_match_update:
  "first_match xs aid i \<Longrightarrow> has_id aid b \<Longrightarrow> first_match (xs[i := b]) aid i"
  by (simp add: first_match_def)

lemma first_match_append:
  "list_all is_dict xs \<Longrightarrow> \<forall>a\<in>set xs. \<not> has_id aid a \<Longrightarrow> has_id aid b
   \<Longrightarrow> first_match (xs @ [b]) aid (length xs)"
  by (simp add: first_match_def nth_append list_all_length)

lemma length_filter_less_iff:
  "length (filter P xs) < length xs \<longleftrightarrow> (\<exists>a\<in>set xs. \<not> P a)"
  by (metis filter_True length_filter_le length_filter_less linorder_not_less)

lemma delete_agent_filter:
  assumes "load_agents w = Inr (PList xs)" and "list_all is_dict xs"
  shows "delete_agent aid w =
     (if \<exists>a\<in>set xs. has_id aid a
      then (if writable (PList (filter (\<lambda>a. \<not> has_id aid a) xs))
            then (Inr True, written (PList (filter (\<lambda>a. \<not> has_id aid a) xs)) w)
            else (Inl UnicodeEncodeError, cut_short w))
      else (Inr False, w))"
proof -
  have "keep_others xs aid = Inr (filter (\<lambda>a. \<not> has_id aid a) xs)"
    using assms(2) by (rule keep_others_filter)
  then show ?thesis
    by (simp add: delete_agent_def assms(1) length_filter_less_iff
        save_agents_writable save_agents_unwritable)
qed


section \<open>Records and stored dicts\<close>

lemma has_id_to_dict: "id' r = PStr s \<Longrightarrow> has_id s (PDict (to_dict r))"
  by (simp add: has_id_def to_dict_def dict_get_def)

lemma known_keys_to_dict: "known_keys (to_dict r)"
  by (simp add: known_keys_def to_dict_def param_names_def)

lemma from_dict_known:
  "known_keys kvs \<Longrightarrow> truthy (dict_get kvs ''id'' PNone) \<Longrightarrow>
   from_dict (PDict kvs) w = (Inr (fst (AgentConfig_init kvs w)), w)"
  by (simp add: from_dict_def known_keys_def AgentConfig_init_def Let_def)

lemma init_to_dict: "truthy (id' r) \<Longrightarrow> fst (AgentConfig_init (to_dict r) w) = r"
  by (simp add: AgentConfig_init_def to_dict_def dict_get_def Let_def)

lemma from_dict_to_dict: "truthy (id' r) \<Longrightarrow> from_dict (PDict (to_dict r)) w = (Inr r, w)"
  using from_dict_known[OF known_keys_to_dict, of r w]
  by (simp add: init_to_dict) (simp add: to_dict_def dict_get_def)

lemma get_agent_first_match:
  assumes "load_agents w = Inr (PList xs)" and "first_match xs aid i"
  shows "get_agent aid w = returning (from_dict (xs ! i) w)"
  using assms by (simp add: get_agent_def find_by_id_first_match[symmetric])

lemma from_dict_init:
  "known_keys kw \<Longrightarrow> from_dict (PDict kw) w = (Inr (as_config kw w), snd (AgentConfig_init kw w))"
  by (simp add: from_dict_def known_keys_def as_config_def)



section \<open>Reading the store\<close>






section \<open>Sample facts\<close>

lemma sample_facts:
  "list_all is_dict [rec_a, rec_b]"
  "has_id ''a'' rec_a" "\<not> has_id ''a'' rec_b" "has_id ''b'' rec_b" "\<not> has_id ''b'' rec_a"
  "\<not> has_id ''zz'' rec_a" "\<not> has_id ''zz'' rec_b"
  "known_keys kvs_b" "is_dict rec_a" "is_dict rec_b"
  by (simp_all add: is_dict_def has_id_def rec_a_def rec_b_def kvs_b_def dict_get_def
      known_keys_def param_names_def)

lemma rec_b_kvs: "[rec_a, rec_b] ! Suc 0 = PDict kvs_b"
  by (simp add: rec_b_def kvs_b_def)

lemma first_match_sample: "first_match [rec_a, rec_b] ''b'' (Suc 0)"
  by (simp add: first_match_def sample_facts)

lemma surrogate_bad_name: "has_surrogate bad_name"
  by (simp add: bad_name_def)

lemma sample_writable:
  "writable rec_a" "writable rec_b" "writable rec_a2" "\<not> writable rec_s"
  "writable (PDict (to_dict cfg_c))" "\<not> writable (PDict kw_bad)"
  by (simp_all add: rec_a_def rec_b_def rec_a2_def rec_s_def kw_bad_def to_dict_def cfg_c_def
      surrogate_bad_name)

lemma sample_s: "is_dict rec_s" "\<not> has_id ''a'' rec_s" "\<not> has_id ''b'' rec_s" "has_id ''s'' rec_s"
  "is_dict rec_a2" "has_id ''a'' rec_a2"
  by (simp_all add: is_dict_def has_id_def rec_s_def rec_a2_def dict_get_def)

section \<open>Deleting\<close>

text \<open>
  C3, as the code has it: on a store whose records are dicts, \<open>delete_agent\<close> with an id
  that some record has, when the records that remain can be written, writes the store
  without the records of that id and returns True, and \<open>get_agent\<close> with that id then
  returns None; with an id that no record has it returns False and the world, with the
  file and the count of writes, is as it was.
\<close>

theorem delete_agent_spec:
  assumes "load_agents w = Inr (PList xs)" and "list_all is_dict xs"
  shows "((\<exists>a\<in>set xs. has_id aid a) \<and> writable (PList (filter (\<lambda>a. \<not> has_id aid a) xs)) \<longrightarrow>
            delete_agent aid w = (Inr True, written (PList (filter (\<lambda>a. \<not> has_id aid a) xs)) w)
          \<and> get_agent aid (snd (delete_agent aid w)) = (Inr None, snd (delete_agent aid w)))
       \<and> ((\<forall>a\<in>set xs. \<not> has_id aid a) \<longrightarrow> delete_agent aid w = (Inr False, w))"
proof -
  let ?ys = "filter (\<lambda>a. \<not> has_id aid a) xs"
  note d = delete_agent_filter[OF assms, of aid]
  have dys: "list_all is_dict ?ys" using assms(2) by (simp add: list_all_iff)
  have f: "find_by_id ?ys aid = Inr None"
    by (rule find_by_id_None[OF dys]) simp
  have g: "get_agent aid (written (PList ?ys) w) = (Inr None, written (PList ?ys) w)"
    by (simp add: get_agent_def load_written f)
  show ?thesis using d g by auto
qed

theorem delete_agent_spec_witness:
  "delete_agent ''a'' (store_of [rec_a, rec_b]) =
     (Inr True, written (PList [rec_b]) (store_of [rec_a, rec_b]))
   \<and> get_agent ''a'' (snd (delete_agent ''a'' (store_of [rec_a, rec_b]))) =
     (Inr None, snd (delete_agent ''a'' (store_of [rec_a, rec_b])))
   \<and> delete_agent ''zz'' (store_of [rec_a, rec_b]) = (Inr False, store_of [rec_a, rec_b])"
proof -
  have l: "load_agents (store_of [rec_a, rec_b]) = Inr (PList [rec_a, rec_b])"
    by (rule load_store_of)
  have d: "list_all is_dict [rec_a, rec_b]" by (rule sample_facts)
  have f: "filter (\<lambda>a. \<not> has_id ''a'' a) [rec_a, rec_b] = [rec_b]"
    by (simp add: sample_facts)
  have m: "(\<exists>a\<in>set [rec_a, rec_b]. has_id ''a'' a)
      \<and> writable (PList (filter (\<lambda>a. \<not> has_id ''a'' a) [rec_a, rec_b]))"
    by (simp add: sample_facts sample_writable)
  have z: "\<forall>a\<in>set [rec_a, rec_b]. \<not> has_id ''zz'' a" by (simp add: sample_facts)
  show ?thesis
    using delete_agent_spec [OF l d, THEN conjunct1, THEN mp, OF m]
      delete_agent_spec [OF l d, THEN conjunct2, THEN mp, OF z]
    by (auto simp add: sample_facts)
qed

text \<open>
  C3, as the claim states it, fails: in a store that holds a record with a lone surrogate
  in its name, deleting another record raises UnicodeEncodeError instead of returning
  True, and the file is left cut short.
\<close>

theorem delete_agent_raises:
  "fst (delete_agent ''a'' (store_of [rec_a, rec_s])) = Inl UnicodeEncodeError
   \<and> agents_file (snd (delete_agent ''a'' (store_of [rec_a, rec_s]))) = InvalidSyntax"
proof -
  have "delete_agent ''a'' (store_of [rec_a, rec_s]) =
      (Inl UnicodeEncodeError, cut_short (store_of [rec_a, rec_s]))"
    by (simp add: delete_agent_filter[OF load_store_of] sample_facts sample_s sample_writable)
  then show ?thesis by (simp add: cut_short_def)
qed

text \<open>
  C9, as the code has it: on a store whose records are dicts, also one in which several
  records have the same id, one call of \<open>delete_agent\<close>, when the records of another id
  can be written, leaves exactly those records, in their order, and returns whether a
  record had the id.
\<close>

theorem delete_agent_removes_all:
  assumes "load_agents w = Inr (PList xs)" and "list_all is_dict xs"
    and "writable (PList (filter (\<lambda>a. \<not> has_id aid a) xs))"
  shows "fst (delete_agent aid w) = Inr (\<exists>a\<in>set xs. has_id aid a)
       \<and> load_agents (snd (delete_agent aid w)) = Inr (PList (filter (\<lambda>a. \<not> has_id aid a) xs))"
proof (cases "\<exists>a\<in>set xs. has_id aid a")
  case True
  then show ?thesis
    using assms(3) by (simp add: delete_agent_filter[OF assms(1,2)] load_written)
next
  case False
  then have "filter (\<lambda>a. \<not> has_id aid a) xs = xs" by simp
  with False show ?thesis
    by (simp add: delete_agent_filter[OF assms(1,2)] assms(1))
qed

theorem delete_agent_removes_all_witness:
  "fst (delete_agent ''a'' (store_of [rec_a, rec_b, rec_a2])) = Inr True
   \<and> load_agents (snd (delete_agent ''a'' (store_of [rec_a, rec_b, rec_a2]))) = Inr (PList [rec_b])"
proof -
  have l: "load_agents (store_of [rec_a, rec_b, rec_a2]) = Inr (PList [rec_a, rec_b, rec_a2])"
    by (rule load_store_of)
  have d: "list_all is_dict [rec_a, rec_b, rec_a2]"
    by (simp add: sample_facts sample_s)
  have f: "filter (\<lambda>a. \<not> has_id ''a'' a) [rec_a, rec_b, rec_a2] = [rec_b]"
    by (simp add: sample_facts sample_s)
  have v: "writable (PList (filter (\<lambda>a. \<not> has_id ''a'' a) [rec_a, rec_b, rec_a2]))"
    by (simp add: f sample_writable)
  show ?thesis
    using delete_agent_removes_all [OF l d v]
    by (simp add: f sample_facts sample_s)
qed

text \<open>
  C9, as the claim states it, fails: in a store with two records of id \<^verbatim>\<open>a\<close> and a
  record of another id that has a lone surrogate in its name, the call raises
  UnicodeEncodeError instead of returning True, and what is read back afterwards is the
  empty list: the record of the other id is gone as well.
\<close>

theorem delete_agent_loses_others:
  "fst (delete_agent ''a'' (store_of [rec_a, rec_s, rec_a2])) = Inl UnicodeEncodeError
   \<and> load_agents (snd (delete_agent ''a'' (store_of [rec_a, rec_s, rec_a2]))) = Inr (PList [])"
proof -
  have "delete_agent ''a'' (store_of [rec_a, rec_s, rec_a2]) =
      (Inl UnicodeEncodeError, cut_short (store_of [rec_a, rec_s, rec_a2]))"
    by (simp add: delete_agent_filter[OF load_store_of] sample_facts sample_s sample_writable)
  then show ?thesis by (simp add: load_cut_short)
qed


section \<open>Creating\<close>

lemma create_agent_list:
  assumes "load_agents w = Inr (PList xs)"
  shows "create_agent r w =
     (if writable (PList (xs @ [PDict (to_dict r)]))
      then (Inr r, written (PList (xs @ [PDict (to_dict r)])) w)
      else (Inl UnicodeEncodeError, cut_short w))"
  by (simp add: create_agent_def assms save_agents_writable save_agents_unwritable)

text \<open>
  C5, as the code has it: on a store whose records are dicts, none of them of the id of
  \<open>r\<close>, a non-empty string, and when the store with \<open>r\<close> appended can be written,
  \<open>create_agent\<close> writes that store and returns \<open>r\<close> itself, and \<open>get_agent\<close> with that
  id, which reads the file again, returns a record equal to \<open>r\<close>.
\<close>

theorem create_then_get:
  assumes "load_agents w = Inr (PList xs)" and "list_all is_dict xs"
    and "\<forall>a\<in>set xs. \<not> has_id s a" and "id' r = PStr s" and "s \<noteq> []"
    and "writable (PList (xs @ [PDict (to_dict r)]))"
  shows "create_agent r w = (Inr r, written (PList (xs @ [PDict (to_dict r)])) w)
       \<and> get_agent s (snd (create_agent r w)) = (Inr (Some r), snd (create_agent r w))"
proof -
  let ?w = "written (PList (xs @ [PDict (to_dict r)])) w"
  have c: "create_agent r w = (Inr r, ?w)"
    using assms(6) by (simp add: create_agent_list[OF assms(1)])
  have m: "first_match (xs @ [PDict (to_dict r)]) s (length xs)"
    using assms(2,3) has_id_to_dict[OF assms(4)] by (rule first_match_append)
  have t: "truthy (id' r)" using assms(4,5) by simp
  have "get_agent s ?w = returning (from_dict ((xs @ [PDict (to_dict r)]) ! length xs) ?w)"
    using load_written m by (rule get_agent_first_match)
  also have "\<dots> = (Inr (Some r), ?w)"
    by (simp add: from_dict_to_dict[OF t] returning_def)
  finally show ?thesis using c by simp
qed

theorem create_then_get_witness:
  "create_agent cfg_c (store_of [rec_a, rec_b]) =
     (Inr cfg_c, written (PList [rec_a, rec_b, PDict (to_dict cfg_c)]) (store_of [rec_a, rec_b]))
   \<and> get_agent ''c'' (snd (create_agent cfg_c (store_of [rec_a, rec_b]))) =
     (Inr (Some cfg_c), snd (create_agent cfg_c (store_of [rec_a, rec_b])))"
proof -
  have l: "load_agents (store_of [rec_a, rec_b]) = Inr (PList [rec_a, rec_b])"
    by (rule load_store_of)
  have d: "list_all is_dict [rec_a, rec_b]" by (rule sample_facts)
  have n: "\<forall>a\<in>set [rec_a, rec_b]. \<not> has_id ''c'' a"
    by (simp add: has_id_def rec_a_def rec_b_def dict_get_def)
  have i: "id' cfg_c = PStr ''c''" by (simp add: cfg_c_def)
  have e: "''c'' \<noteq> []" by simp
  have v: "writable (PList ([rec_a, rec_b] @ [PDict (to_dict cfg_c)]))"
    by (simp add: sample_writable del: writable.simps(3))
  show ?thesis
    using create_then_get [OF l d n i e v] by auto
qed

text \<open>
  C5, as the claim states it, fails: in a store that holds a record with a lone surrogate
  in its name, \<open>create_agent\<close> with a record of a new id raises UnicodeEncodeError instead
  of returning the record, and \<open>get_agent\<close> with the id of the record then returns None.
\<close>

theorem create_agent_raises:
  "fst (create_agent cfg_c (store_of [rec_s])) = Inl UnicodeEncodeError
   \<and> fst (get_agent ''c'' (snd (create_agent cfg_c (store_of [rec_s])))) = Inr None"
proof -
  have "create_agent cfg_c (store_of [rec_s]) = (Inl UnicodeEncodeError, cut_short (store_of [rec_s]))"
    by (simp add: create_agent_list[OF load_store_of] sample_writable)
  then show ?thesis by (simp add: get_agent_def load_cut_short)
qed

section \<open>What the operations leave alone\<close>

lemma agents_file_init [simp]: "agents_file (snd (AgentConfig_init kvs w)) = agents_file w"
  by (simp add: AgentConfig_init_def Let_def uuid4_def)

lemma saves_init [simp]: "saves (snd (AgentConfig_init kvs w)) = saves w"
  by (simp add: AgentConfig_init_def Let_def uuid4_def)

lemma agents_file_from_dict [simp]: "agents_file (snd (from_dict d w)) = agents_file w"
  by (cases d) (simp_all add: from_dict_def)

lemma saves_from_dict [simp]: "saves (snd (from_dict d w)) = saves w"
  by (cases d) (simp_all add: from_dict_def)

lemma snd_returning [simp]: "snd (returning r) = snd r"
  by (cases r) (simp add: returning_def split: sum.splits)

lemma load_agents_cong: "agents_file w' = agents_file w \<Longrightarrow> load_agents w' = load_agents w"
  by (simp add: load_agents_def)

lemma as_config_written [simp]: "as_config kvs (written a w) = as_config kvs w"
  by (simp add: as_config_def AgentConfig_init_def written_def uuid4_def Let_def)

lemma from_dict_as_config:
  "known_keys kvs \<Longrightarrow> fst (from_dict (PDict kvs) w) = Inr (as_config kvs w)"
  by (simp add: from_dict_def known_keys_def as_config_def)

lemma from_dict_truthy_id:
  "known_keys kvs \<Longrightarrow> truthy (dict_get kvs ''id'' PNone) \<Longrightarrow>
   from_dict (PDict kvs) w = (Inr (as_config kvs w), w)"
  by (simp add: from_dict_known as_config_def)



section \<open>Updating a stored dict\<close>

lemma map_of_apply_kwargs:
  assumes "distinct (map fst kwargs)"
  shows "map_of (apply_kwargs kwargs kvs) k =
     (case map_of kwargs k of
        Some v \<Rightarrow> if v \<noteq> PNone then Some v else map_of kvs k
      | None \<Rightarrow> map_of kvs k)"
  using assms unfolding apply_kwargs_def
proof (induction kwargs arbitrary: kvs)
  case Nil
  then show ?case by simp
next
  case (Cons kv kwargs)
  from Cons.prems have d: "distinct (map fst kwargs)" and n: "map_of kwargs (fst kv) = None"
    by (simp_all add: map_of_eq_None_iff)
  note ih = Cons.IH[OF d]
  show ?case
  proof (cases "k = fst kv")
    case True
    with n have "map_of kwargs k = None" by simp
    then show ?thesis
      by (simp only: foldl_Cons ih) (simp add: True update_conv')
  next
    case False
    then show ?thesis
      by (simp only: foldl_Cons ih) (simp add: update_conv' split: option.splits)
  qed
qed

lemma keys_apply_kwargs:
  "fst ` set (apply_kwargs kwargs kvs) \<subseteq> fst ` set kvs \<union> fst ` set kwargs"
  unfolding apply_kwargs_def
proof (induction kwargs arbitrary: kvs)
  case Nil
  then show ?case by simp
next
  case (Cons kv kwargs)
  show ?case
    using Cons.IH[of "AList.update (fst kv) (snd kv) kvs"] Cons.IH[of kvs]
    by (simp add: dom_update) blast
qed


section \<open>Updating\<close>

lemma known_keys_binds: "known_keys kwargs \<Longrightarrow> binds kwargs"
  by (auto simp: known_keys_def binds_def list_all_iff list_ex_iff param_names_def positional_names_def)

lemma update_agent_first_match:
  assumes "load_agents w = Inr (PList xs)" and "first_match xs aid i" and "xs ! i = PDict kvs"
    and "binds kwargs"
  shows "update_agent aid kwargs w =
     (if writable (PList (xs[i := PDict (apply_kwargs kwargs kvs)]))
      then returning (from_dict (PDict (apply_kwargs kwargs kvs))
             (written (PList (xs[i := PDict (apply_kwargs kwargs kvs)])) w))
      else (Inl UnicodeEncodeError, cut_short w))"
proof -
  from assms(2) have f: "find_by_id xs aid = Inr (Some i)" by (simp add: find_by_id_first_match)
  from assms(4) have b: "\<not> list_ex (\<lambda>kv. fst kv \<in> set positional_names) kwargs"
    by (simp add: binds_def)
  show ?thesis
  proof (cases "writable (PList (xs[i := PDict (apply_kwargs kwargs kvs)]))")
    case True
    then show ?thesis
      by (simp add: update_agent_def b assms(1,3) f Let_def save_agents_writable[OF True])
  next
    case False
    then show ?thesis
      by (simp add: update_agent_def b assms(1,3) f Let_def save_agents_unwritable[OF False])
  qed
qed

lemma toggle_agent_first_match:
  assumes "load_agents w = Inr (PList xs)" and "first_match xs aid i" and "xs ! i = PDict kvs"
  shows "toggle_agent aid w =
     (if writable (PList (xs[i := PDict (AList.update ''enabled''
           (PBool (\<not> truthy (dict_get kvs ''enabled'' (PBool True)))) kvs)]))
      then returning (from_dict (PDict (AList.update ''enabled''
               (PBool (\<not> truthy (dict_get kvs ''enabled'' (PBool True)))) kvs))
             (written (PList (xs[i := PDict (AList.update ''enabled''
               (PBool (\<not> truthy (dict_get kvs ''enabled'' (PBool True)))) kvs)])) w))
      else (Inl UnicodeEncodeError, cut_short w))"
proof -
  from assms(2) have f: "find_by_id xs aid = Inr (Some i)" by (simp add: find_by_id_first_match)
  let ?new = "PDict (AList.update ''enabled''
      (PBool (\<not> truthy (dict_get kvs ''enabled'' (PBool True)))) kvs)"
  show ?thesis
  proof (cases "writable (PList (xs[i := ?new]))")
    case True
    then show ?thesis
      by (simp add: toggle_agent_def assms(1,3) f Let_def save_agents_writable[OF True])
  next
    case False
    then show ?thesis
      by (simp add: toggle_agent_def assms(1,3) f Let_def save_agents_unwritable[OF False])
  qed
qed

lemma update_agent_not_found:
  assumes "load_agents w = Inr (PList xs)" and "list_all is_dict xs" and "\<forall>a\<in>set xs. \<not> has_id aid a"
    and "binds kwargs"
  shows "update_agent aid kwargs w = (Inr None, w)"
  using assms by (simp add: update_agent_def find_by_id_None binds_def)

lemma toggle_agent_not_found:
  assumes "load_agents w = Inr (PList xs)" and "list_all is_dict xs" and "\<forall>a\<in>set xs. \<not> has_id aid a"
  shows "toggle_agent aid w = (Inr None, w)"
  using assms by (simp add: toggle_agent_def find_by_id_None)

lemma fst_returning: "fst r = Inr c \<Longrightarrow> fst (returning r) = Inr (Some c)"
  by (cases r) (simp add: returning_def)

lemma known_keys_apply_kwargs:
  assumes "known_keys kvs" and "known_keys kwargs"
  shows "known_keys (apply_kwargs kwargs kvs)"
proof -
  have "fst ` set kvs \<union> fst ` set kwargs \<subseteq> set param_names"
    using assms by (auto simp: known_keys_def list_all_iff)
  with keys_apply_kwargs[of kwargs kvs]
  have "fst ` set (apply_kwargs kwargs kvs) \<subseteq> set param_names" by (rule subset_trans)
  then show ?thesis by (auto simp: known_keys_def list_all_iff)
qed

lemma dict_get_apply_kwargs:
  assumes "distinct (map fst kwargs)"
  shows "dict_get (apply_kwargs kwargs kvs) k d =
     (case map_of kwargs k of
        Some v \<Rightarrow> if v \<noteq> PNone then v else dict_get kvs k d
      | None \<Rightarrow> dict_get kvs k d)"
  by (simp add: dict_get_def map_of_apply_kwargs[OF assms] split: option.splits)

lemma getattr_as_config:
  "getattr (as_config kvs w) ''name'' = dict_get kvs ''name'' (PStr '''')"
  "getattr (as_config kvs w) ''enabled'' = dict_get kvs ''enabled'' (PBool True)"
  "getattr (as_config kvs w) ''model_provider'' = dict_get kvs ''model_provider'' (PStr ''google'')"
  "getattr (as_config kvs w) ''model'' = dict_get kvs ''model'' (PStr ''gemini-2.0-flash-exp'')"
  "getattr (as_config kvs w) ''voice'' = dict_get kvs ''voice'' (PStr ''Puck'')"
  "getattr (as_config kvs w) ''first_message'' = dict_get kvs ''first_message'' (PStr ''Hello! How can I help you today?'')"
  "getattr (as_config kvs w) ''noise_cancellation'' = dict_get kvs ''noise_cancellation'' (PBool True)"
  "getattr (as_config kvs w) ''n8n_mcp_url'' = dict_get kvs ''n8n_mcp_url'' (PStr '''')"
  "getattr (as_config kvs w) ''metadata'' = dict_get kvs ''metadata'' (PStr '''')"
  by (simp_all add: getattr_def as_config_def AgentConfig_init_def to_dict_def Let_def dict_get_def[of "_ # _"])

lemma id_as_config:
  "truthy (dict_get kvs ''id'' PNone) \<Longrightarrow> id' (as_config kvs w) = dict_get kvs ''id'' PNone"
  by (simp add: as_config_def AgentConfig_init_def Let_def)


lemma getattr_updated:
  assumes "distinct (map fst kwargs)"
  shows "\<forall>k\<in>set param_names. k \<noteq> ''id'' \<longrightarrow>
     getattr (as_config (apply_kwargs kwargs kvs) w) k =
       (case map_of kwargs k of
          Some v \<Rightarrow> if v \<noteq> PNone then v else getattr (as_config kvs w) k
        | None \<Rightarrow> getattr (as_config kvs w) k)"
  unfolding param_names_def
  by (simp only: list.set ball_simps getattr_as_config dict_get_apply_kwargs[OF assms] simp_thms)



text \<open>
  C1, as the code has it: let the scan stop at record \<open>i\<close>, a dict \<open>kvs\<close> of known
  fields, let the keyword arguments name known fields, and let the store with the
  updated record be one that can be written. Then \<open>update_agent\<close> writes once, the store
  with position \<open>i\<close> replaced and every other position as it was; the stored dict has the
  supplied value under each key whose supplied value is not None and its old value under
  every other key; the record returned is the AgentConfig of that dict, each attribute of
  which is the supplied value or else the attribute before; the id stays when none is
  supplied. When no record has the id (and the records are dicts), the result is None and
  the world, file and count of writes included, is as it was.
\<close>

theorem update_agent_spec:
  assumes "load_agents w = Inr (PList xs)"
  shows "(first_match xs aid i \<and> xs ! i = PDict kvs \<and> known_keys kvs \<and> known_keys kwargs
          \<and> distinct (map fst kwargs)
          \<and> writable (PList (xs[i := PDict (apply_kwargs kwargs kvs)])) \<longrightarrow>
            fst (update_agent aid kwargs w) = Inr (Some (as_config (apply_kwargs kwargs kvs) w))
          \<and> load_agents (snd (update_agent aid kwargs w)) =
              Inr (PList (xs[i := PDict (apply_kwargs kwargs kvs)]))
          \<and> saves (snd (update_agent aid kwargs w)) = Suc (saves w)
          \<and> (\<forall>k. map_of (apply_kwargs kwargs kvs) k =
                (case map_of kwargs k of
                   Some v \<Rightarrow> if v \<noteq> PNone then Some v else map_of kvs k
                 | None \<Rightarrow> map_of kvs k))
          \<and> (\<forall>k\<in>set param_names. k \<noteq> ''id'' \<longrightarrow>
                getattr (as_config (apply_kwargs kwargs kvs) w) k =
                  (case map_of kwargs k of
                     Some v \<Rightarrow> if v \<noteq> PNone then v else getattr (as_config kvs w) k
                   | None \<Rightarrow> getattr (as_config kvs w) k))
          \<and> (dict_get kwargs ''id'' PNone = PNone \<and> aid \<noteq> [] \<longrightarrow>
                id' (as_config (apply_kwargs kwargs kvs) w) = PStr aid
              \<and> id' (as_config kvs w) = PStr aid))
       \<and> (list_all is_dict xs \<and> (\<forall>a\<in>set xs. \<not> has_id aid a) \<and> binds kwargs \<longrightarrow>
            update_agent aid kwargs w = (Inr None, w))"
proof (intro conjI impI)
  assume "list_all is_dict xs \<and> (\<forall>a\<in>set xs. \<not> has_id aid a) \<and> binds kwargs"
  then show "update_agent aid kwargs w = (Inr None, w)"
    using assms update_agent_not_found by blast
next
  assume h: "first_match xs aid i \<and> xs ! i = PDict kvs \<and> known_keys kvs \<and> known_keys kwargs
          \<and> distinct (map fst kwargs)
          \<and> writable (PList (xs[i := PDict (apply_kwargs kwargs kvs)]))"
  let ?kvs = "apply_kwargs kwargs kvs"
  let ?w = "written (PList (xs[i := PDict ?kvs])) w"
  from h have m: "first_match xs aid i" and n: "xs ! i = PDict kvs"
    and b: "binds kwargs" and v: "writable (PList (xs[i := PDict ?kvs]))"
    by (simp_all add: known_keys_binds)
  have u: "update_agent aid kwargs w = returning (from_dict (PDict ?kvs) ?w)"
    using v by (simp add: update_agent_first_match[OF assms m n b])
  from h have kk: "known_keys ?kvs" by (simp add: known_keys_apply_kwargs)
  show "fst (update_agent aid kwargs w) = Inr (Some (as_config ?kvs w))"
    using from_dict_as_config[OF kk, of ?w] by (simp add: u fst_returning)
  have "agents_file (snd (update_agent aid kwargs w)) = agents_file ?w"
    by (simp add: u)
  then have "load_agents (snd (update_agent aid kwargs w)) = load_agents ?w"
    by (rule load_agents_cong)
  then show "load_agents (snd (update_agent aid kwargs w)) = Inr (PList (xs[i := PDict ?kvs]))"
    by (simp add: load_written)
  show "saves (snd (update_agent aid kwargs w)) = Suc (saves w)"
    by (simp add: u) (simp add: written_def)
  from h have d: "distinct (map fst kwargs)" by simp
  show "\<forall>k. map_of ?kvs k =
          (case map_of kwargs k of
             Some v \<Rightarrow> if v \<noteq> PNone then Some v else map_of kvs k
           | None \<Rightarrow> map_of kvs k)"
    using map_of_apply_kwargs[OF d] by blast
  show "\<forall>k\<in>set param_names. k \<noteq> ''id'' \<longrightarrow>
          getattr (as_config ?kvs w) k =
            (case map_of kwargs k of
               Some v \<Rightarrow> if v \<noteq> PNone then v else getattr (as_config kvs w) k
             | None \<Rightarrow> getattr (as_config kvs w) k)"
    using getattr_updated[OF d] .
  {
    assume e: "dict_get kwargs ''id'' PNone = PNone \<and> aid \<noteq> []"
    from m n have "has_id aid (PDict kvs)" by (auto simp: first_match_def)
    then have o: "dict_get kvs ''id'' PNone = PStr aid" by (simp add: has_id_def)
    from e have "dict_get ?kvs ''id'' PNone = dict_get kvs ''id'' PNone"
      by (simp add: dict_get_apply_kwargs[OF d]) (simp add: dict_get_def split: option.splits)
    with o e show "id' (as_config ?kvs w) = PStr aid" by (simp add: id_as_config)
    from o e show "id' (as_config kvs w) = PStr aid" by (simp add: id_as_config)
  }
qed

theorem update_agent_spec_witness:
  "fst (update_agent ''b'' kw_rename (store_of [rec_a, rec_b])) =
     Inr (Some (as_config [(''id'', PStr ''b''), (''name'', PStr ''Robert''), (''enabled'', PBool False)]
       (store_of [rec_a, rec_b])))
   \<and> load_agents (snd (update_agent ''b'' kw_rename (store_of [rec_a, rec_b]))) =
     Inr (PList [rec_a, PDict [(''id'', PStr ''b''), (''name'', PStr ''Robert''), (''enabled'', PBool False)]])
   \<and> saves (snd (update_agent ''b'' kw_rename (store_of [rec_a, rec_b]))) = Suc 0
   \<and> update_agent ''zz'' kw_rename (store_of [rec_a, rec_b]) = (Inr None, store_of [rec_a, rec_b])"
proof -
  have l: "load_agents (store_of [rec_a, rec_b]) = Inr (PList [rec_a, rec_b])"
    by (rule load_store_of)
  have k: "known_keys kw_rename" and dk: "distinct (map fst kw_rename)"
    by (simp_all add: kw_rename_def known_keys_def param_names_def)
  have a: "apply_kwargs kw_rename kvs_b =
      [(''id'', PStr ''b''), (''name'', PStr ''Robert''), (''enabled'', PBool False)]"
    by (simp add: apply_kwargs_def kw_rename_def kvs_b_def)
  have v: "writable (PList ([rec_a, rec_b][Suc 0 := PDict (apply_kwargs kw_rename kvs_b)]))"
    by (simp add: a) (simp add: sample_writable)
  have h: "first_match [rec_a, rec_b] ''b'' (Suc 0) \<and> [rec_a, rec_b] ! Suc 0 = PDict kvs_b
      \<and> known_keys kvs_b \<and> known_keys kw_rename \<and> distinct (map fst kw_rename)
      \<and> writable (PList ([rec_a, rec_b][Suc 0 := PDict (apply_kwargs kw_rename kvs_b)]))"
    using first_match_sample rec_b_kvs sample_facts(8) k dk v by blast
  have z: "list_all is_dict [rec_a, rec_b] \<and> (\<forall>a\<in>set [rec_a, rec_b]. \<not> has_id ''zz'' a)
      \<and> binds kw_rename"
    by (simp add: sample_facts known_keys_binds[OF k])
  have s: "saves (store_of [rec_a, rec_b]) = 0" by (simp add: store_of_def world_of_def)
  show ?thesis
    using update_agent_spec [OF l, THEN conjunct1, THEN mp, OF h]
      update_agent_spec [OF l, THEN conjunct2, THEN mp, OF z]
    by (simp add: a s)
qed

text \<open>
  C1, as the claim states it, fails: in a store that holds another record with a lone
  surrogate in its name, updating the name of the record of id \<^verbatim>\<open>a\<close> raises
  UnicodeEncodeError instead of returning the updated record, and the file is left cut
  short.
\<close>

theorem update_agent_raises:
  "fst (update_agent ''a'' kw_rename (store_of [rec_a, rec_s])) = Inl UnicodeEncodeError
   \<and> agents_file (snd (update_agent ''a'' kw_rename (store_of [rec_a, rec_s]))) = InvalidSyntax"
proof -
  have m: "first_match [rec_a, rec_s] ''a'' 0" by (simp add: first_match_def sample_facts)
  have n: "[rec_a, rec_s] ! 0 = PDict [(''id'', PStr ''a''), (''name'', PStr ''Alice''), (''enabled'', PBool True)]"
    by (simp add: rec_a_def)
  have b: "binds kw_rename"
    by (simp add: binds_def kw_rename_def positional_names_def)
  have "update_agent ''a'' kw_rename (store_of [rec_a, rec_s]) =
      (Inl UnicodeEncodeError, cut_short (store_of [rec_a, rec_s]))"
    by (simp add: update_agent_first_match[OF load_store_of m n b] sample_writable)
  then show ?thesis by (simp add: cut_short_def)
qed


section \<open>Toggling\<close>

lemma as_config_toggle:
  "as_config (AList.update ''enabled'' v kvs) w = (as_config kvs w)\<lparr>enabled := v\<rparr>"
  by (simp add: as_config_def AgentConfig_init_def Let_def dict_get_def update_conv')

lemma known_keys_toggle: "known_keys kvs \<Longrightarrow> known_keys (AList.update ''enabled'' v kvs)"
  by (auto simp: known_keys_def list_all_iff update_keys param_names_def)

lemma id_toggle: "dict_get (AList.update ''enabled'' v kvs) ''id'' d = dict_get kvs ''id'' d"
  by (simp add: dict_get_def update_conv')

lemma has_id_toggle: "has_id aid (PDict kvs) \<Longrightarrow> has_id aid (PDict (AList.update ''enabled'' v kvs))"
  by (simp add: has_id_def id_toggle)

lemma enabled_toggle: "dict_get (AList.update ''enabled'' v kvs) ''enabled'' d = v"
  by (simp add: dict_get_def update_conv')

lemma writable_alist_update:
  "writable (PDict kvs) \<Longrightarrow> \<not> has_surrogate k \<Longrightarrow> writable v
   \<Longrightarrow> writable (PDict (AList.update k v kvs))"
  by (induction kvs) auto

lemma writable_toggled:
  assumes "writable (PList xs)" and "i < length xs" and "xs ! i = PDict kvs"
  shows "writable (PList (xs[i := PDict (AList.update ''enabled'' (PBool c) kvs)]))"
proof -
  have "writable (PDict kvs)" using writable_nth[OF assms(1,2)] assms(3) by simp
  then have "writable (PDict (AList.update ''enabled'' (PBool c) kvs))"
    by (rule writable_alist_update) simp_all
  with assms(1) show ?thesis by (rule writable_list_update)
qed

lemma toggle_agent_bool:
  assumes "load_agents w = Inr (PList xs)" and "first_match xs aid i" and "xs ! i = PDict kvs"
    and "known_keys kvs" and "dict_get kvs ''enabled'' (PBool True) = PBool b" and "aid \<noteq> []"
    and "writable (PList xs)"
  shows "toggle_agent aid w =
     (Inr (Some ((as_config kvs w)\<lparr>enabled := PBool (\<not> b)\<rparr>)),
      written (PList (xs[i := PDict (AList.update ''enabled'' (PBool (\<not> b)) kvs)])) w)"
proof -
  let ?kvs = "AList.update ''enabled'' (PBool (\<not> b)) kvs"
  from assms(2) have i: "i < length xs" by (simp add: first_match_def)
  from assms(2,3) have "has_id aid (PDict kvs)" by (auto simp: first_match_def)
  then have "dict_get kvs ''id'' PNone = PStr aid" by (simp add: has_id_def)
  with assms(6) have t: "truthy (dict_get ?kvs ''id'' PNone)" by (simp add: id_toggle)
  have k: "known_keys ?kvs" using assms(4) by (rule known_keys_toggle)
  have v: "writable (PList (xs[i := PDict ?kvs]))"
    using assms(7) i assms(3) by (rule writable_toggled)
  show ?thesis
    using v by (simp add: toggle_agent_first_match[OF assms(1,2,3)] assms(5)
        from_dict_truthy_id[OF k t] returning_def as_config_toggle)
qed

text \<open>
  C4, as the code has it: let the store be one that can be written and let the scan stop
  at record \<open>i\<close>, a dict \<open>kvs\<close> of known fields whose \<open>enabled\<close> is the boolean \<open>b\<close> (or is
  missing, which reads as True), under a non-empty id. Then \<open>toggle_agent\<close> returns the
  record as it was with \<open>enabled\<close> set to \<open>\<not> b\<close>, and writes the store with the key
  \<open>enabled\<close> of that dict set to \<open>\<not> b\<close> and every other key and every other record as it
  was; a second call returns the record as it was at the start, and the stored \<open>enabled\<close>
  is \<open>b\<close> again.
\<close>

theorem toggle_agent_spec:
  assumes "load_agents w = Inr (PList xs)" and "first_match xs aid i" and "xs ! i = PDict kvs"
    and "known_keys kvs" and "dict_get kvs ''enabled'' (PBool True) = PBool b" and "aid \<noteq> []"
    and "writable (PList xs)"
  shows "toggle_agent aid w =
           (Inr (Some ((as_config kvs w)\<lparr>enabled := PBool (\<not> b)\<rparr>)),
            written (PList (xs[i := PDict (AList.update ''enabled'' (PBool (\<not> b)) kvs)])) w)
       \<and> (\<forall>k. k \<noteq> ''enabled'' \<longrightarrow>
             map_of (AList.update ''enabled'' (PBool (\<not> b)) kvs) k = map_of kvs k)
       \<and> enabled (as_config kvs w) = PBool b
       \<and> toggle_agent aid (snd (toggle_agent aid w)) =
           (Inr (Some (as_config kvs w)),
            written (PList (xs[i := PDict (AList.update ''enabled'' (PBool b) kvs)]))
              (snd (toggle_agent aid w)))"
proof -
  let ?kvs = "AList.update ''enabled'' (PBool (\<not> b)) kvs"
  let ?xs = "xs[i := PDict ?kvs]"
  let ?w = "written (PList ?xs) w"
  have one: "toggle_agent aid w = (Inr (Some ((as_config kvs w)\<lparr>enabled := PBool (\<not> b)\<rparr>)), ?w)"
    using assms by (rule toggle_agent_bool)
  have e: "enabled (as_config kvs w) = PBool b"
    using assms(5) by (simp add: as_config_def AgentConfig_init_def Let_def)
  from assms(2) have i: "i < length xs" by (simp add: first_match_def)
  from assms(2,3) have h: "has_id aid (PDict kvs)" by (auto simp: first_match_def)
  have l2: "load_agents ?w = Inr (PList ?xs)" by (rule load_written)
  have m2: "first_match ?xs aid i"
    using assms(2) has_id_toggle[OF h] by (rule first_match_update)
  have n2: "?xs ! i = PDict ?kvs" using i by simp
  have k2: "known_keys ?kvs" using assms(4) by (rule known_keys_toggle)
  have b2: "dict_get ?kvs ''enabled'' (PBool True) = PBool (\<not> b)" by (rule enabled_toggle)
  have v2: "writable (PList ?xs)" using assms(7) i assms(3) by (rule writable_toggled)
  have two: "toggle_agent aid ?w =
      (Inr (Some ((as_config ?kvs ?w)\<lparr>enabled := PBool (\<not> \<not> b)\<rparr>)),
       written (PList (?xs[i := PDict (AList.update ''enabled'' (PBool (\<not> \<not> b)) ?kvs)])) ?w)"
    using l2 m2 n2 k2 b2 assms(6) v2 by (rule toggle_agent_bool)
  have r: "(as_config ?kvs ?w)\<lparr>enabled := PBool (\<not> \<not> b)\<rparr> = as_config kvs w"
    using e by (simp add: as_config_toggle)
  show ?thesis
    using one two r e by (simp add: update_conv')
qed

theorem toggle_agent_spec_witness:
  "toggle_agent ''b'' (store_of [rec_a, rec_b]) =
     (Inr (Some ((as_config kvs_b (store_of [rec_a, rec_b]))\<lparr>enabled := PBool True\<rparr>)),
      written (PList [rec_a, PDict [(''id'', PStr ''b''), (''name'', PStr ''Bob''), (''enabled'', PBool True)]])
        (store_of [rec_a, rec_b]))
   \<and> enabled (as_config kvs_b (store_of [rec_a, rec_b])) = PBool False
   \<and> toggle_agent ''b'' (snd (toggle_agent ''b'' (store_of [rec_a, rec_b]))) =
     (Inr (Some (as_config kvs_b (store_of [rec_a, rec_b]))),
      written (PList [rec_a, PDict [(''id'', PStr ''b''), (''name'', PStr ''Bob''), (''enabled'', PBool False)]])
        (snd (toggle_agent ''b'' (store_of [rec_a, rec_b]))))"
proof -
  have l: "load_agents (store_of [rec_a, rec_b]) = Inr (PList [rec_a, rec_b])"
    by (rule load_store_of)
  have e: "dict_get kvs_b ''enabled'' (PBool True) = PBool False"
    by (simp add: kvs_b_def dict_get_def)
  have n: "''b'' \<noteq> []" by simp
  have v: "writable (PList [rec_a, rec_b])" by (simp add: sample_writable)
  have u: "AList.update ''enabled'' (PBool True) kvs_b =
      [(''id'', PStr ''b''), (''name'', PStr ''Bob''), (''enabled'', PBool True)]"
    "AList.update ''enabled'' (PBool False) kvs_b =
      [(''id'', PStr ''b''), (''name'', PStr ''Bob''), (''enabled'', PBool False)]"
    by (simp_all add: kvs_b_def)
  show ?thesis
    using toggle_agent_spec [OF l first_match_sample rec_b_kvs sample_facts(8) e n v]
    by (auto simp add: u)
qed

text \<open>
  C4, as the claim states it, fails: in a store that holds another record with a lone
  surrogate in its name, \<open>toggle_agent\<close> on the record of id \<^verbatim>\<open>a\<close> raises
  UnicodeEncodeError instead of returning the flipped record, and \<open>get_agent\<close> no longer
  finds the record.
\<close>

theorem toggle_agent_raises:
  "fst (toggle_agent ''a'' (store_of [rec_a, rec_s])) = Inl UnicodeEncodeError
   \<and> fst (get_agent ''a'' (snd (toggle_agent ''a'' (store_of [rec_a, rec_s])))) = Inr None"
proof -
  have m: "first_match [rec_a, rec_s] ''a'' 0" by (simp add: first_match_def sample_facts)
  have n: "[rec_a, rec_s] ! 0 = PDict [(''id'', PStr ''a''), (''name'', PStr ''Alice''), (''enabled'', PBool True)]"
    by (simp add: rec_a_def)
  have "toggle_agent ''a'' (store_of [rec_a, rec_s]) =
      (Inl UnicodeEncodeError, cut_short (store_of [rec_a, rec_s]))"
    by (simp add: toggle_agent_first_match[OF load_store_of m n] sample_writable)
  then show ?thesis by (simp add: get_agent_def load_cut_short)
qed


section \<open>Order of the records\<close>

text \<open>
  C7, as the code has it: on a store that holds the list \<open>xs\<close>, and when the list to be
  written can be written, what is read back after \<open>create_agent\<close> is \<open>xs\<close> with the new
  record at the end; after \<open>update_agent\<close> (called with keywords that bind) and
  \<open>toggle_agent\<close> it is \<open>xs\<close> with the record that the scan stopped at replaced where it
  stood; after \<open>delete_agent\<close> it is \<open>xs\<close> filtered, the remaining records in their
  order; and any list that is saved is read back as it was, the reading of a written
  document being the contract of the \<^verbatim>\<open>json\<close> module.
\<close>

theorem order_preserved:
  assumes "load_agents w = Inr (PList xs)"
  shows "(writable (PList (xs @ [PDict (to_dict r)])) \<longrightarrow>
            load_agents (snd (create_agent r w)) = Inr (PList (xs @ [PDict (to_dict r)])))
       \<and> (first_match xs aid i \<and> xs ! i = PDict kvs \<and> binds kwargs
            \<and> writable (PList (xs[i := PDict (apply_kwargs kwargs kvs)])) \<longrightarrow>
             load_agents (snd (update_agent aid kwargs w)) =
               Inr (PList (xs[i := PDict (apply_kwargs kwargs kvs)])))
       \<and> (first_match xs aid i \<and> xs ! i = PDict kvs
            \<and> writable (PList (xs[i := PDict (AList.update ''enabled''
                 (PBool (\<not> truthy (dict_get kvs ''enabled'' (PBool True)))) kvs)])) \<longrightarrow>
             load_agents (snd (toggle_agent aid w)) =
               Inr (PList (xs[i := PDict (AList.update ''enabled''
                 (PBool (\<not> truthy (dict_get kvs ''enabled'' (PBool True)))) kvs)])))
       \<and> (list_all is_dict xs \<and> writable (PList (filter (\<lambda>a. \<not> has_id aid a) xs)) \<longrightarrow>
             load_agents (snd (delete_agent aid w)) = Inr (PList (filter (\<lambda>a. \<not> has_id aid a) xs)))
       \<and> (writable (PList ys) \<longrightarrow>
             load_agents (snd (save_agents (PList ys) w)) = Inr (PList ys))"
proof (intro conjI impI)
  assume "writable (PList (xs @ [PDict (to_dict r)]))"
  then show "load_agents (snd (create_agent r w)) = Inr (PList (xs @ [PDict (to_dict r)]))"
    by (simp add: create_agent_list[OF assms] load_written)
next
  assume h: "first_match xs aid i \<and> xs ! i = PDict kvs \<and> binds kwargs
      \<and> writable (PList (xs[i := PDict (apply_kwargs kwargs kvs)]))"
  let ?u = "PList (xs[i := PDict (apply_kwargs kwargs kvs)])"
  from h have m: "first_match xs aid i" and n: "xs ! i = PDict kvs" and b: "binds kwargs"
    and v: "writable ?u" by simp_all
  have "agents_file (snd (update_agent aid kwargs w)) = agents_file (written ?u w)"
    using v by (simp add: update_agent_first_match[OF assms m n b])
  then have "load_agents (snd (update_agent aid kwargs w)) = load_agents (written ?u w)"
    by (rule load_agents_cong)
  then show "load_agents (snd (update_agent aid kwargs w)) = Inr ?u"
    by (simp add: load_written)
next
  assume h: "first_match xs aid i \<and> xs ! i = PDict kvs
      \<and> writable (PList (xs[i := PDict (AList.update ''enabled''
           (PBool (\<not> truthy (dict_get kvs ''enabled'' (PBool True)))) kvs)]))"
  let ?t = "PList (xs[i := PDict (AList.update ''enabled''
      (PBool (\<not> truthy (dict_get kvs ''enabled'' (PBool True)))) kvs)])"
  from h have m: "first_match xs aid i" and n: "xs ! i = PDict kvs" and v: "writable ?t"
    by simp_all
  have "agents_file (snd (toggle_agent aid w)) = agents_file (written ?t w)"
    using v by (simp add: toggle_agent_first_match[OF assms m n])
  then have "load_agents (snd (toggle_agent aid w)) = load_agents (written ?t w)"
    by (rule load_agents_cong)
  then show "load_agents (snd (toggle_agent aid w)) = Inr ?t"
    by (simp add: load_written)
next
  assume d: "list_all is_dict xs \<and> writable (PList (filter (\<lambda>a. \<not> has_id aid a) xs))"
  then have dd: "list_all is_dict xs" by simp
  show "load_agents (snd (delete_agent aid w)) = Inr (PList (filter (\<lambda>a. \<not> has_id aid a) xs))"
  proof (cases "\<exists>a\<in>set xs. has_id aid a")
    case True
    then show ?thesis using d by (simp add: delete_agent_filter[OF assms dd] load_written)
  next
    case False
    then have "filter (\<lambda>a. \<not> has_id aid a) xs = xs" by simp
    with False show ?thesis by (simp add: delete_agent_filter[OF assms dd] assms)
  qed
next
  assume "writable (PList ys)"
  then show "load_agents (snd (save_agents (PList ys) w)) = Inr (PList ys)"
    by (simp add: save_agents_writable load_written)
qed

theorem order_preserved_witness:
  "load_agents (snd (create_agent cfg_c (store_of [rec_a, rec_b]))) =
     Inr (PList [rec_a, rec_b, PDict (to_dict cfg_c)])
   \<and> load_agents (snd (update_agent ''b'' kw_rename (store_of [rec_a, rec_b]))) =
     Inr (PList [rec_a, PDict [(''id'', PStr ''b''), (''name'', PStr ''Robert''), (''enabled'', PBool False)]])
   \<and> load_agents (snd (toggle_agent ''b'' (store_of [rec_a, rec_b]))) =
     Inr (PList [rec_a, PDict [(''id'', PStr ''b''), (''name'', PStr ''Bob''), (''enabled'', PBool True)]])
   \<and> load_agents (snd (delete_agent ''a'' (store_of [rec_a, rec_b]))) = Inr (PList [rec_b])
   \<and> load_agents (snd (save_agents (PList [rec_b, rec_a]) (store_of [rec_a, rec_b]))) =
     Inr (PList [rec_b, rec_a])"
proof -
  have l: "load_agents (store_of [rec_a, rec_b]) = Inr (PList [rec_a, rec_b])"
    by (rule load_store_of)
  have a: "apply_kwargs kw_rename kvs_b =
      [(''id'', PStr ''b''), (''name'', PStr ''Robert''), (''enabled'', PBool False)]"
    by (simp add: apply_kwargs_def kw_rename_def kvs_b_def)
  have u: "AList.update ''enabled'' (PBool (\<not> truthy (dict_get kvs_b ''enabled'' (PBool True)))) kvs_b =
      [(''id'', PStr ''b''), (''name'', PStr ''Bob''), (''enabled'', PBool True)]"
    by (simp add: kvs_b_def dict_get_def)
  have b: "binds kw_rename" by (simp add: binds_def kw_rename_def positional_names_def)
  have c: "writable (PList ([rec_a, rec_b] @ [PDict (to_dict cfg_c)]))"
    by (simp add: sample_writable del: writable.simps(3))
  have hu: "first_match [rec_a, rec_b] ''b'' (Suc 0) \<and> [rec_a, rec_b] ! Suc 0 = PDict kvs_b
      \<and> binds kw_rename
      \<and> writable (PList ([rec_a, rec_b][Suc 0 := PDict (apply_kwargs kw_rename kvs_b)]))"
    using first_match_sample rec_b_kvs b by (simp add: a) (simp add: sample_writable)
  have ht: "first_match [rec_a, rec_b] ''b'' (Suc 0) \<and> [rec_a, rec_b] ! Suc 0 = PDict kvs_b
      \<and> writable (PList ([rec_a, rec_b][Suc 0 := PDict (AList.update ''enabled''
           (PBool (\<not> truthy (dict_get kvs_b ''enabled'' (PBool True)))) kvs_b)]))"
    using first_match_sample rec_b_kvs by (simp add: u) (simp add: sample_writable)
  have hd: "list_all is_dict [rec_a, rec_b]
      \<and> writable (PList (filter (\<lambda>a. \<not> has_id ''a'' a) [rec_a, rec_b]))"
    by (simp add: sample_facts sample_writable)
  have hs: "writable (PList [rec_b, rec_a])" by (simp add: sample_writable)
  note o = order_preserved [OF l]
  show ?thesis
    using o [THEN conjunct1, THEN mp, OF c]
      o [THEN conjunct2, THEN conjunct1, THEN mp, OF hu]
      o [THEN conjunct2, THEN conjunct2, THEN conjunct1, THEN mp, OF ht]
      o [THEN conjunct2, THEN conjunct2, THEN conjunct2, THEN conjunct1, THEN mp, OF hd]
      o [THEN conjunct2, THEN conjunct2, THEN conjunct2, THEN conjunct2, THEN mp, OF hs]
    by (simp add: a u sample_facts)
qed

text \<open>
  C7, as the claim states it, fails: a store of two records is read back as the empty
  list after \<open>update_agent\<close> is given a name with a lone surrogate; the write raises and
  the sequence is lost, the order of the records with it.
\<close>

theorem order_lost:
  "load_agents (store_of [rec_a, rec_b]) = Inr (PList [rec_a, rec_b])
   \<and> fst (update_agent ''a'' kw_bad (store_of [rec_a, rec_b])) = Inl UnicodeEncodeError
   \<and> load_agents (snd (update_agent ''a'' kw_bad (store_of [rec_a, rec_b]))) = Inr (PList [])"
proof -
  have m: "first_match [rec_a, rec_b] ''a'' 0" by (simp add: first_match_def sample_facts)
  have n: "[rec_a, rec_b] ! 0 = PDict [(''id'', PStr ''a''), (''name'', PStr ''Alice''), (''enabled'', PBool True)]"
    by (simp add: rec_a_def)
  have b: "binds kw_bad" by (simp add: binds_def kw_bad_def positional_names_def)
  have a: "apply_kwargs kw_bad [(''id'', PStr ''a''), (''name'', PStr ''Alice''), (''enabled'', PBool True)] =
      [(''id'', PStr ''a''), (''name'', PStr bad_name), (''enabled'', PBool True)]"
    by (simp add: apply_kwargs_def kw_bad_def)
  have "update_agent ''a'' kw_bad (store_of [rec_a, rec_b]) =
      (Inl UnicodeEncodeError, cut_short (store_of [rec_a, rec_b]))"
    by (simp add: update_agent_first_match[OF load_store_of m n b] a surrogate_bad_name)
  then show ?thesis by (simp add: load_cut_short load_store_of)
qed


section \<open>Uniqueness of ids\<close>

lemma stored_ids_cong: "agents_file w' = agents_file w \<Longrightarrow> stored_ids w' = stored_ids w"
  by (simp add: stored_ids_def load_agents_def)

lemma stored_ids_written: "stored_ids (written (PList xs) w) = map id_of xs"
  by (simp add: stored_ids_def load_written)

lemma stored_ids_cut_short: "stored_ids (cut_short w) = []"
  by (simp add: stored_ids_def load_cut_short)

lemma stored_ids_load: "load_agents w = Inr (PList xs) \<Longrightarrow> stored_ids w = map id_of xs"
  by (simp add: stored_ids_def)

lemma py_iter_dict_elem:
  assumes "py_iter agents = Inr xs" and "i < length xs" and "is_dict (xs ! i)"
  shows "agents = PList xs"
  using assms by (cases agents) (auto simp: is_dict_def)

lemma map_of_apply_kwargs_untouched:
  "list_all (\<lambda>kv. fst kv = k \<longrightarrow> snd kv = PNone) kwargs \<Longrightarrow>
   map_of (apply_kwargs kwargs kvs) k = map_of kvs k"
  unfolding apply_kwargs_def
proof (induction kwargs arbitrary: kvs)
  case Nil
  then show ?case by simp
next
  case (Cons kv kwargs)
  from Cons.prems have h: "fst kv = k \<longrightarrow> snd kv = PNone"
    and r: "list_all (\<lambda>kv. fst kv = k \<longrightarrow> snd kv = PNone) kwargs" by simp_all
  note ih = Cons.IH[OF r]
  have "map_of (if snd kv \<noteq> PNone then AList.update (fst kv) (snd kv) kvs else kvs) k = map_of kvs k"
    using h by (simp add: update_conv')
  then show ?case by (simp only: foldl_Cons ih)
qed

lemma id_of_apply_kwargs:
  "list_all (\<lambda>kv. fst kv = ''id'' \<longrightarrow> snd kv = PNone) kwargs \<Longrightarrow>
   id_of (PDict (apply_kwargs kwargs kvs)) = id_of (PDict kvs)"
  by (simp add: id_of_def dict_get_def map_of_apply_kwargs_untouched)

lemma id_of_toggle: "id_of (PDict (AList.update ''enabled'' v kvs)) = id_of (PDict kvs)"
  by (simp add: id_of_def id_toggle)

lemma map_id_of_update:
  "i < length xs \<Longrightarrow> id_of b = id_of (xs ! i) \<Longrightarrow> map id_of (xs[i := b]) = map id_of xs"
  by (simp add: map_update list_update_same_conv)


text \<open>Either nothing is written, or the scan stopped at a dict of a list.\<close>

lemma scan_stops:
  assumes "load_agents w = Inr agents" and "py_iter agents = Inr xs"
    and "find_by_id xs aid = Inr (Some i)"
  shows "\<exists>kvs. load_agents w = Inr (PList xs) \<and> first_match xs aid i \<and> xs ! i = PDict kvs"
proof -
  from assms(3) have m: "first_match xs aid i" by (simp add: find_by_id_first_match)
  then have "i < length xs" and h: "has_id aid (xs ! i)" by (simp_all add: first_match_def)
  from h obtain kvs where k: "xs ! i = PDict kvs" using has_id_dict by blast
  from h have "is_dict (xs ! i)" by (rule has_id_is_dict)
  with assms(2) \<open>i < length xs\<close> have "agents = PList xs" by (rule py_iter_dict_elem)
  with assms(1) m k show ?thesis by blast
qed

lemma update_agent_cases:
  "snd (update_agent aid kwargs w) = w \<or>
   (\<exists>xs i kvs. load_agents w = Inr (PList xs) \<and> first_match xs aid i \<and> xs ! i = PDict kvs
      \<and> binds kwargs)"
proof (cases "binds kwargs")
  case False
  then show ?thesis by (simp add: update_agent_def binds_def)
next
  case b: True
  then have nb: "\<not> list_ex (\<lambda>kv. fst kv \<in> set positional_names) kwargs" by (simp add: binds_def)
  show ?thesis
  proof (cases "load_agents w")
    case (Inl e)
    then show ?thesis by (simp add: update_agent_def)
  next
    case (Inr agents)
    show ?thesis
    proof (cases "py_iter agents")
      case (Inl e)
      with Inr show ?thesis by (simp add: update_agent_def)
    next
      case it: (Inr xs)
      show ?thesis
      proof (cases "find_by_id xs aid")
        case (Inl e)
        with Inr it show ?thesis by (simp add: update_agent_def)
      next
        case f: (Inr r)
        show ?thesis
        proof (cases r)
          case None
          with Inr it f show ?thesis by (simp add: update_agent_def)
        next
          case (Some i)
          with f have "find_by_id xs aid = Inr (Some i)" by simp
          from scan_stops[OF Inr it this] b show ?thesis by blast
        qed
      qed
    qed
  qed
qed

lemma toggle_agent_cases:
  "snd (toggle_agent aid w) = w \<or>
   (\<exists>xs i kvs. load_agents w = Inr (PList xs) \<and> first_match xs aid i \<and> xs ! i = PDict kvs)"
proof (cases "load_agents w")
  case (Inl e)
  then show ?thesis by (simp add: toggle_agent_def)
next
  case (Inr agents)
  show ?thesis
  proof (cases "py_iter agents")
    case (Inl e)
    with Inr show ?thesis by (simp add: toggle_agent_def)
  next
    case it: (Inr xs)
    show ?thesis
    proof (cases "find_by_id xs aid")
      case (Inl e)
      with Inr it show ?thesis by (simp add: toggle_agent_def)
    next
      case f: (Inr r)
      show ?thesis
      proof (cases r)
        case None
        with Inr it f show ?thesis by (simp add: toggle_agent_def)
      next
        case (Some i)
        with f have "find_by_id xs aid = Inr (Some i)" by simp
        from scan_stops[OF Inr it this] show ?thesis by blast
      qed
    qed
  qed
qed

lemma stored_ids_update:
  assumes "list_all (\<lambda>kv. fst kv = ''id'' \<longrightarrow> snd kv = PNone) kwargs"
  shows "stored_ids (snd (update_agent aid kwargs w)) = stored_ids w
       \<or> stored_ids (snd (update_agent aid kwargs w)) = []"
  using update_agent_cases[of aid kwargs w]
proof
  assume "snd (update_agent aid kwargs w) = w"
  then show ?thesis by simp
next
  assume "\<exists>xs i kvs. load_agents w = Inr (PList xs) \<and> first_match xs aid i \<and> xs ! i = PDict kvs
      \<and> binds kwargs"
  then obtain xs i kvs where l: "load_agents w = Inr (PList xs)"
    and m: "first_match xs aid i" and k: "xs ! i = PDict kvs" and b: "binds kwargs" by blast
  let ?new = "PDict (apply_kwargs kwargs kvs)"
  show ?thesis
  proof (cases "writable (PList (xs[i := ?new]))")
    case True
    then have "agents_file (snd (update_agent aid kwargs w)) =
        agents_file (written (PList (xs[i := ?new])) w)"
      by (simp add: update_agent_first_match[OF l m k b])
    then have "stored_ids (snd (update_agent aid kwargs w)) = map id_of (xs[i := ?new])"
      by (simp add: stored_ids_cong stored_ids_written)
    also have "\<dots> = map id_of xs"
      using m k by (simp add: map_id_of_update id_of_apply_kwargs[OF assms] first_match_def)
    finally show ?thesis by (simp add: stored_ids_load[OF l])
  next
    case False
    then show ?thesis
      by (simp add: update_agent_first_match[OF l m k b] stored_ids_cut_short)
  qed
qed

lemma stored_ids_toggle:
  "stored_ids (snd (toggle_agent aid w)) = stored_ids w
   \<or> stored_ids (snd (toggle_agent aid w)) = []"
  using toggle_agent_cases[of aid w]
proof
  assume "snd (toggle_agent aid w) = w"
  then show ?thesis by simp
next
  assume "\<exists>xs i kvs. load_agents w = Inr (PList xs) \<and> first_match xs aid i \<and> xs ! i = PDict kvs"
  then obtain xs i kvs where l: "load_agents w = Inr (PList xs)"
    and m: "first_match xs aid i" and k: "xs ! i = PDict kvs" by blast
  let ?new = "PDict (AList.update ''enabled''
      (PBool (\<not> truthy (dict_get kvs ''enabled'' (PBool True)))) kvs)"
  show ?thesis
  proof (cases "writable (PList (xs[i := ?new]))")
    case True
    then have "agents_file (snd (toggle_agent aid w)) =
        agents_file (written (PList (xs[i := ?new])) w)"
      by (simp add: toggle_agent_first_match[OF l m k])
    then have "stored_ids (snd (toggle_agent aid w)) = map id_of (xs[i := ?new])"
      by (simp add: stored_ids_cong stored_ids_written)
    also have "\<dots> = map id_of xs"
      using m k by (simp add: map_id_of_update id_of_toggle first_match_def)
    finally show ?thesis by (simp add: stored_ids_load[OF l])
  next
    case False
    then show ?thesis
      by (simp add: toggle_agent_first_match[OF l m k] stored_ids_cut_short)
  qed
qed

lemma id_of_to_dict: "id_of (PDict (to_dict c)) = id' c"
  by (simp add: id_of_def to_dict_def dict_get_def)

lemma stored_ids_create:
  "stored_ids (snd (create_agent c w)) = stored_ids w
   \<or> stored_ids (snd (create_agent c w)) = stored_ids w @ [id' c]
   \<or> stored_ids (snd (create_agent c w)) = []"
proof (cases "load_agents w")
  case (Inl e)
  then show ?thesis by (simp add: create_agent_def)
next
  case (Inr agents)
  show ?thesis
  proof (cases "\<exists>xs. agents = PList xs")
    case True
    then obtain xs where "agents = PList xs" by blast
    with Inr have l: "load_agents w = Inr (PList xs)" by simp
    show ?thesis
      by (simp add: create_agent_list[OF l] stored_ids_written stored_ids_cut_short
          stored_ids_load[OF l] id_of_to_dict del: writable.simps)
  next
    case False
    then have "create_agent c w = (Inl AttributeError, w)"
      using Inr by (cases agents) (simp_all add: create_agent_def)
    then show ?thesis by simp
  qed
qed

lemma keep_others_Inr:
  "keep_others xs aid = Inr ys \<Longrightarrow> list_all is_dict xs"
proof (induction xs arbitrary: ys)
  case Nil
  then show ?case by simp
next
  case (Cons a xs)
  show ?case
  proof (cases a)
    case (PDict kvs)
    with Cons.prems obtain zs where "keep_others xs aid = Inr zs"
      by (cases "keep_others xs aid") simp_all
    then have "list_all is_dict xs" by (rule Cons.IH)
    moreover have "is_dict a" using PDict by (simp add: is_dict_def)
    ultimately show ?thesis by simp
  qed (use Cons.prems in simp_all)
qed

lemma delete_agent_cases:
  "snd (delete_agent aid w) = w \<or>
   (\<exists>xs. load_agents w = Inr (PList xs) \<and>
      (snd (delete_agent aid w) = written (PList (filter (\<lambda>a. \<not> has_id aid a) xs)) w
       \<or> snd (delete_agent aid w) = cut_short w))"
proof (cases "load_agents w")
  case (Inl e)
  then show ?thesis by (simp add: delete_agent_def)
next
  case (Inr agents)
  show ?thesis
  proof (cases "\<exists>xs. agents = PList xs")
    case True
    then obtain xs where a: "agents = PList xs" by blast
    with Inr have l: "load_agents w = Inr (PList xs)" by simp
    show ?thesis
    proof (cases "keep_others xs aid")
      case (Inl e)
      with Inr a show ?thesis by (simp add: delete_agent_def)
    next
      case r: (Inr ys)
      then have d: "list_all is_dict xs" by (rule keep_others_Inr)
      show ?thesis
        using l by (auto simp add: delete_agent_filter[OF l d] simp del: writable.simps)
    qed
  next
    case False
    show ?thesis
    proof (cases "py_len agents")
      case (Inl e)
      with Inr show ?thesis by (simp add: delete_agent_def)
    next
      case n: (Inr original_len)
      show ?thesis
      proof (cases "py_iter agents")
        case (Inl e)
        with Inr n show ?thesis by (simp add: delete_agent_def)
      next
        case it: (Inr xs)
        show ?thesis
        proof (cases xs)
          case Nil
          with False it n have "original_len = 0" by (cases agents) auto
          with Inr n it Nil show ?thesis by (simp add: delete_agent_def)
        next
          case (Cons x rest)
          with False it have "\<not> is_dict x" by (cases agents) (auto simp: is_dict_def)
          then have "keep_others xs aid = Inl AttributeError"
            using Cons by (cases x) (simp_all add: is_dict_def)
          with Inr n it show ?thesis by (simp add: delete_agent_def)
        qed
      qed
    qed
  qed
qed

lemma stored_ids_delete:
  "distinct (stored_ids w) \<Longrightarrow> distinct (stored_ids (snd (delete_agent aid w)))"
  using delete_agent_cases[of aid w]
  by (auto simp: stored_ids_written stored_ids_cut_short stored_ids_load distinct_map_filter)

lemma admissible_step:
  "distinct (stored_ids w) \<Longrightarrow> admissible x w \<Longrightarrow> distinct (stored_ids (step x w))"
proof (cases x)
  case (Create c)
  assume "distinct (stored_ids w)" and "admissible x w"
  with Create stored_ids_create[of c w] show ?thesis by auto
next
  case (Update aid kwargs)
  assume "distinct (stored_ids w)" and "admissible x w"
  with Update stored_ids_update[of kwargs aid w] show ?thesis by auto
next
  case (Delete aid)
  assume "distinct (stored_ids w)"
  with Delete show ?thesis by (simp add: stored_ids_delete)
next
  case (Toggle aid)
  assume "distinct (stored_ids w)"
  with Toggle stored_ids_toggle[of aid w] show ?thesis by auto
qed

lemma stored_ids_store_of: "stored_ids (store_of xs) = map id_of xs"
  by (simp add: stored_ids_load load_store_of)

lemma id_of_samples: "id_of rec_a = PStr ''a''" "id_of rec_b = PStr ''b''"
  by (simp_all add: id_of_def rec_a_def rec_b_def dict_get_def)

text \<open>
  C6, as the code has it: from a store whose ids are pairwise distinct, every run of
  admissible operations leaves the ids pairwise distinct. \<open>delete_agent\<close> and
  \<open>toggle_agent\<close> are always admissible, \<open>update_agent\<close> when no id is among the
  supplied values, \<open>create_agent\<close> when the id of the new record is not in the store.
\<close>

theorem ids_stay_distinct:
  "distinct (stored_ids w) \<Longrightarrow> admissible_run ops w \<Longrightarrow> distinct (stored_ids (run ops w))"
proof (induction ops arbitrary: w)
  case Nil
  then show ?case by simp
next
  case (Cons x ops)
  from Cons.prems have "distinct (stored_ids (step x w))" by (simp add: admissible_step)
  moreover from Cons.prems have "admissible_run ops (step x w)" by simp
  ultimately show ?case by (simp add: Cons.IH)
qed


theorem ids_stay_distinct_witness:
  "distinct (stored_ids (store_of [rec_a, rec_b]))
   \<and> admissible_run [Create cfg_c, Update ''b'' kw_rename, Toggle ''a'', Delete ''b'']
        (store_of [rec_a, rec_b])
   \<and> distinct (stored_ids (run [Create cfg_c, Update ''b'' kw_rename, Toggle ''a'', Delete ''b'']
        (store_of [rec_a, rec_b])))"
proof -
  have d: "distinct (stored_ids (store_of [rec_a, rec_b]))"
    by (simp add: stored_ids_store_of id_of_samples)
  have a: "admissible_run [Create cfg_c, Update ''b'' kw_rename, Toggle ''a'', Delete ''b'']
      (store_of [rec_a, rec_b])"
    by (simp add: stored_ids_store_of id_of_samples cfg_c_def kw_rename_def)
  from ids_stay_distinct [OF d a] d a show ?thesis by blast
qed

text \<open>
  C6, as the claim states it, fails: \<open>create_agent\<close> does not look at the ids in the
  store, and creating a record of id \<^verbatim>\<open>a\<close> in a store that holds one leaves two.
\<close>

theorem duplicate_id_created:
  "distinct (stored_ids (store_of [rec_a]))
   \<and> \<not> distinct (stored_ids (run [Create cfg_a] (store_of [rec_a])))"
proof -
  have v: "writable (PList ([rec_a] @ [PDict (to_dict cfg_a)]))"
    by (simp add: rec_a_def to_dict_def cfg_a_def)
  have "stored_ids (run [Create cfg_a] (store_of [rec_a])) = [id_of rec_a, id' cfg_a]"
    using v by (simp add: create_agent_list[OF load_store_of] stored_ids_written id_of_to_dict
        del: writable.simps)
  then show ?thesis
    by (simp add: stored_ids_store_of id_of_samples cfg_a_def)
qed


section \<open>Testing an agent\<close>

lemma quote_not_found: "quote ''Agent not found'' = ''Agent%20not%20found''"
  by (simp add: quote_def quote_char_def always_safe_def hex_digit_def)

lemma quote_disabled:
  "quote ''Agent is disabled. Enable it first to test.'' =
     ''Agent%20is%20disabled.%20Enable%20it%20first%20to%20test.''"
  by (simp add: quote_def quote_char_def always_safe_def hex_digit_def)

lemma lk_calls_init [simp]: "lk_calls (snd (AgentConfig_init kvs w)) = lk_calls w"
  by (simp add: AgentConfig_init_def Let_def uuid4_def)

lemma lk_calls_from_dict [simp]: "lk_calls (snd (from_dict d w)) = lk_calls w"
  by (cases d) (simp_all add: from_dict_def)

lemma lk_calls_get_agent: "lk_calls (snd (get_agent aid w)) = lk_calls w"
  by (simp add: get_agent_def split: sum.splits option.splits)


lemma test_agent_calls_client:
  assumes "is_admin rq" and "csrf_ok rq"
    and "fst (get_agent aid w) = Inr (Some agent)" and "truthy (enabled agent)"
  shows "length (lk_calls w) < length (lk_calls (snd (test_agent rq aid w)))"
proof -
  obtain b where g: "get_agent aid w = (Inr (Some agent), b)"
    using assms(3) by (cases "get_agent aid w") simp
  with lk_calls_get_agent[of aid w] have "lk_calls b = lk_calls w" by simp
  then show ?thesis
    using assms(1,2,4) g
    by (simp add: test_agent_def Let_def uuid4_def split: option.splits sum.splits)
qed

text \<open>
  C8: for a request of the admin with a valid CSRF token, when \<open>get_agent\<close> finds no
  record of the id, \<open>test_agent\<close> answers with the redirect whose flash message is
  \<^verbatim>\<open>Agent not found\<close>, of type error; when the record found has a falsy \<open>enabled\<close>, with the
  redirect whose flash message is \<^verbatim>\<open>Agent is disabled. Enable it first to test.\<close>, of type
  error. In both cases the log of calls on the real-time client is as it was: no room is
  created and no token is generated.
\<close>

theorem test_agent_guards:
  assumes "is_admin rq" and "csrf_ok rq"
  shows "(fst (get_agent aid w) = Inr None \<longrightarrow>
            fst (test_agent rq aid w) =
              Inr (RedirectResponse ''/agents?flash_message=Agent%20not%20found&flash_type=error'' 303)
          \<and> lk_calls (snd (test_agent rq aid w)) = lk_calls w)
       \<and> (fst (get_agent aid w) = Inr (Some agent) \<and> \<not> truthy (enabled agent) \<longrightarrow>
            fst (test_agent rq aid w) =
              Inr (RedirectResponse
                ''/agents?flash_message=Agent%20is%20disabled.%20Enable%20it%20first%20to%20test.&flash_type=error''
                303)
          \<and> lk_calls (snd (test_agent rq aid w)) = lk_calls w)"
proof (intro conjI impI)
  assume n: "fst (get_agent aid w) = Inr None"
  then have t: "test_agent rq aid w = (Inr (flash_error ''Agent not found''), snd (get_agent aid w))"
    using assms by (cases "get_agent aid w") (simp add: test_agent_def)
  show "fst (test_agent rq aid w) =
      Inr (RedirectResponse ''/agents?flash_message=Agent%20not%20found&flash_type=error'' 303)"
    by (simp add: t flash_error_def quote_not_found)
  show "lk_calls (snd (test_agent rq aid w)) = lk_calls w"
    by (simp add: t lk_calls_get_agent)
next
  assume d: "fst (get_agent aid w) = Inr (Some agent) \<and> \<not> truthy (enabled agent)"
  then have t: "test_agent rq aid w =
      (Inr (flash_error ''Agent is disabled. Enable it first to test.''), snd (get_agent aid w))"
    using assms by (cases "get_agent aid w") (simp add: test_agent_def)
  show "fst (test_agent rq aid w) =
      Inr (RedirectResponse
        ''/agents?flash_message=Agent%20is%20disabled.%20Enable%20it%20first%20to%20test.&flash_type=error''
        303)"
    by (simp add: t flash_error_def quote_disabled)
  show "lk_calls (snd (test_agent rq aid w)) = lk_calls w"
    by (simp add: t lk_calls_get_agent)
qed

theorem test_agent_guards_witness:
  "fst (test_agent rq_ok ''zz'' (store_of [rec_a, rec_b])) =
     Inr (RedirectResponse ''/agents?flash_message=Agent%20not%20found&flash_type=error'' 303)
   \<and> lk_calls (snd (test_agent rq_ok ''zz'' (store_of [rec_a, rec_b]))) = []
   \<and> fst (test_agent rq_ok ''b'' (store_of [rec_a, rec_b])) =
     Inr (RedirectResponse
       ''/agents?flash_message=Agent%20is%20disabled.%20Enable%20it%20first%20to%20test.&flash_type=error''
       303)
   \<and> lk_calls (snd (test_agent rq_ok ''b'' (store_of [rec_a, rec_b]))) = []"
proof -
  have l: "load_agents (store_of [rec_a, rec_b]) = Inr (PList [rec_a, rec_b])"
    by (rule load_store_of)
  have a: "is_admin rq_ok" and c: "csrf_ok rq_ok" by (simp_all add: rq_ok_def)
  have f: "find_by_id [rec_a, rec_b] ''zz'' = Inr None"
    by (rule find_by_id_None) (simp_all add: sample_facts)
  have z: "fst (get_agent ''zz'' (store_of [rec_a, rec_b])) = Inr None"
    by (simp add: get_agent_def l f del: find_by_id.simps)
  have t: "truthy (dict_get kvs_b ''id'' PNone)" by (simp add: kvs_b_def dict_get_def)
  have b: "fst (get_agent ''b'' (store_of [rec_a, rec_b])) =
      Inr (Some (as_config kvs_b (store_of [rec_a, rec_b])))"
    unfolding get_agent_first_match[OF l first_match_sample] rec_b_kvs
      from_dict_truthy_id[OF sample_facts(8) t] returning_def
    by simp
  have e: "\<not> truthy (enabled (as_config kvs_b (store_of [rec_a, rec_b])))"
    by (simp add: as_config_def AgentConfig_init_def Let_def kvs_b_def dict_get_def)
  have k: "lk_calls (store_of [rec_a, rec_b]) = []" by (simp add: store_of_def world_of_def)
  show ?thesis
    using test_agent_guards [OF a c, THEN conjunct1, rule_format, OF z]
      test_agent_guards [OF a c, THEN conjunct2, rule_format, OF conjI, OF b e]
    by (simp add: k)
qed


section \<open>Generated ids\<close>

lemma falsy_id:
  "map_of kw ''id'' = None \<or> map_of kw ''id'' = Some PNone \<or> map_of kw ''id'' = Some (PStr [])
   \<Longrightarrow> \<not> truthy (dict_get kw ''id'' PNone)"
  by (auto simp: dict_get_def)

lemma init_falsy_id:
  assumes "\<not> truthy (dict_get kw ''id'' PNone)"
  shows "id' (as_config kw w) = PStr (uuids w 0)"
    and "uuids (snd (AgentConfig_init kw w)) = (\<lambda>n. uuids w (Suc n))"
  using assms by (simp_all add: as_config_def AgentConfig_init_def Let_def uuid4_def)

text \<open>
  C10: when the keyword arguments hold no id, the id None or the empty string as id, the
  AgentConfig built has as id the string that \<^verbatim>\<open>uuid.uuid4\<close> gives next (non-empty when
  that string is), and one uuid is used up; \<open>from_dict\<close>, \<open>list_agents\<close> and
  \<open>get_agent\<close> build the record so. Hence a stored record whose id is the empty string
  comes back from \<open>get_agent\<close> with the next uuid as id, and from a second call with
  the one after it.
\<close>

theorem init_generates_id:
  assumes "map_of kw ''id'' = None \<or> map_of kw ''id'' = Some PNone \<or> map_of kw ''id'' = Some (PStr [])"
  shows "id' (as_config kw w) = PStr (uuids w 0)
       \<and> (uuids w 0 \<noteq> [] \<longrightarrow> truthy (id' (as_config kw w)))
       \<and> uuids (snd (AgentConfig_init kw w)) = (\<lambda>n. uuids w (Suc n))
       \<and> (known_keys kw \<longrightarrow>
            from_dict (PDict kw) w = (Inr (as_config kw w), snd (AgentConfig_init kw w)))
       \<and> (load_agents w = Inr (PList [PDict kw]) \<and> known_keys kw \<longrightarrow>
            fst (list_agents w) = Inr [as_config kw w])
       \<and> (load_agents w = Inr (PList xs) \<and> first_match xs [] i \<and> xs ! i = PDict kw \<and> known_keys kw \<longrightarrow>
            fst (get_agent [] w) = Inr (Some (as_config kw w))
          \<and> fst (get_agent [] (snd (get_agent [] w))) =
              Inr (Some (as_config kw (snd (get_agent [] w))))
          \<and> id' (as_config kw (snd (get_agent [] w))) = PStr (uuids w (Suc 0)))"
proof -
  from assms have f: "\<not> truthy (dict_get kw ''id'' PNone)" by (rule falsy_id)
  have i: "id' (as_config kw w) = PStr (uuids w 0)" for w
    using f by (rule init_falsy_id)
  have u: "uuids (snd (AgentConfig_init kw w)) = (\<lambda>n. uuids w (Suc n))" for w
    using f by (rule init_falsy_id)
  have l: "fst (list_agents w) = Inr [as_config kw w]"
    if "load_agents w = Inr (PList [PDict kw]) \<and> known_keys kw"
    using that by (simp add: list_agents_def from_dict_init)
  have g: "fst (get_agent [] w) = Inr (Some (as_config kw w))
      \<and> fst (get_agent [] (snd (get_agent [] w))) = Inr (Some (as_config kw (snd (get_agent [] w))))
      \<and> id' (as_config kw (snd (get_agent [] w))) = PStr (uuids w (Suc 0))"
    if h: "load_agents w = Inr (PList xs) \<and> first_match xs [] i \<and> xs ! i = PDict kw \<and> known_keys kw"
  proof -
    from h have lo: "load_agents w = Inr (PList xs)" and m: "first_match xs [] i"
      and n: "xs ! i = PDict kw" and k: "known_keys kw" by simp_all
    let ?w = "snd (AgentConfig_init kw w)"
    have g1: "get_agent [] w = (Inr (Some (as_config kw w)), ?w)"
      by (simp add: get_agent_first_match[OF lo m] n from_dict_init[OF k] returning_def)
    have "agents_file ?w = agents_file w" by simp
    then have "load_agents ?w = load_agents w" by (rule load_agents_cong)
    with lo have lo2: "load_agents ?w = Inr (PList xs)" by simp
    have g2: "get_agent [] ?w = (Inr (Some (as_config kw ?w)), snd (AgentConfig_init kw ?w))"
      by (simp add: get_agent_first_match[OF lo2 m] n from_dict_init[OF k] returning_def)
    have "id' (as_config kw ?w) = PStr (uuids ?w 0)" by (rule i)
    also have "\<dots> = PStr (uuids w (Suc 0))" by (simp add: u)
    finally show ?thesis by (simp add: g1 g2)
  qed
  from i[of w] u[of w] from_dict_init[of kw w] l g show ?thesis by simp
qed

theorem init_generates_id_witness:
  "id' (as_config kvs_blank (store_of [rec_a, rec_blank])) = PStr ''0f2b8c1e-5d4a-4e6f-9a7b-0c1d2e3f4a5b''
   \<and> truthy (id' (as_config kvs_blank (store_of [rec_a, rec_blank])))
   \<and> fst (get_agent [] (store_of [rec_a, rec_blank])) =
       Inr (Some (as_config kvs_blank (store_of [rec_a, rec_blank])))
   \<and> fst (get_agent [] (snd (get_agent [] (store_of [rec_a, rec_blank])))) =
       Inr (Some (as_config kvs_blank (snd (get_agent [] (store_of [rec_a, rec_blank])))))
   \<and> id' (as_config kvs_blank (snd (get_agent [] (store_of [rec_a, rec_blank])))) =
       PStr ''1f2b8c1e-5d4a-4e6f-9a7b-0c1d2e3f4a5b''"
proof -
  have a: "map_of kvs_blank ''id'' = None \<or> map_of kvs_blank ''id'' = Some PNone
      \<or> map_of kvs_blank ''id'' = Some (PStr [])"
    by (simp add: kvs_blank_def)
  have u: "uuids (store_of [rec_a, rec_blank]) 0 = ''0f2b8c1e-5d4a-4e6f-9a7b-0c1d2e3f4a5b''"
    "uuids (store_of [rec_a, rec_blank]) (Suc 0) = ''1f2b8c1e-5d4a-4e6f-9a7b-0c1d2e3f4a5b''"
    by (simp_all add: store_of_def world_of_def sample_uuids_def)
  have h: "load_agents (store_of [rec_a, rec_blank]) = Inr (PList [rec_a, rec_blank])
      \<and> first_match [rec_a, rec_blank] [] (Suc 0) \<and> [rec_a, rec_blank] ! Suc 0 = PDict kvs_blank
      \<and> known_keys kvs_blank"
    by (simp add: load_store_of first_match_def has_id_def is_dict_def rec_a_def rec_blank_def
        kvs_blank_def dict_get_def known_keys_def param_names_def)
  note t = init_generates_id [OF a, of "store_of [rec_a, rec_blank]"]
  show ?thesis
    using t [THEN conjunct1] t [THEN conjunct2, THEN conjunct1]
      t [THEN conjunct2, THEN conjunct2, THEN conjunct2, THEN conjunct2, THEN conjunct2,
         rule_format, OF h]
    by (simp add: u)
qed



end
